theory Spec2Isabelle
  imports Complex_Main "HOL-Library.Multiset"
begin

section \<open>Python and NumPy values\<close>

text \<open>
  The unit under verification is \<^verbatim>\<open>pyblp/results/simulation_results.py\<close>: the class
  \<^verbatim>\<open>SimulationResults\<close> with its constructor, \<^verbatim>\<open>to_problem\<close> and \<^verbatim>\<open>compute_micro\<close>.

  Exceptions are values. \<open>ValueError\<close> carries its message, since the source raises one
  with a message of its own and NumPy raises others when shapes do not fit.
\<close>

datatype py_error =
    KeyError
  | IndexError
  | ValueError string
  | AssertionError
  | OverflowError

definition shape_mismatch :: py_error where
  "shape_mismatch = ValueError ''operands could not be broadcast together''"

text \<open>
  Floating-point entries are exact reals, together with one element \<open>NonFinite\<close> that
  stands for \<^verbatim>\<open>inf\<close>, \<^verbatim>\<open>-inf\<close> and \<^verbatim>\<open>nan\<close>. A non-finite operand makes every sum
  and product non-finite, and so does a division by a zero count (NumPy returns
  \<^verbatim>\<open>inf\<close> or \<^verbatim>\<open>nan\<close> there and does not raise). Rounding and overflow of finite
  values are not part of these operations; the section on double precision below has
  the operations that round.
\<close>

datatype num = Fin real | NonFinite

fun num_add :: "num \<Rightarrow> num \<Rightarrow> num" where
  "num_add (Fin a) (Fin b) = Fin (a + b)"
| "num_add _ _ = NonFinite"

fun num_mul :: "num \<Rightarrow> num \<Rightarrow> num" where
  "num_mul (Fin a) (Fin b) = Fin (a * b)"
| "num_mul _ _ = NonFinite"

text \<open>A float divided by an integer count (true division).\<close>

fun num_div :: "num \<Rightarrow> int \<Rightarrow> num" where
  "num_div (Fin a) c = (if c = 0 then NonFinite else Fin (a / real_of_int c))"
| "num_div NonFinite c = NonFinite"

text \<open>
  Arrays of shape \<open>(n, 1)\<close> are lists of their \<open>n\<close> rows. Broadcasting a column to
  \<open>n\<close> rows keeps a column of \<open>n\<close> rows, repeats the row of a column of one row, and
  fails otherwise.
\<close>

type_synonym column = "num list"

definition broadcast_to :: "nat \<Rightarrow> 'a list \<Rightarrow> py_error + 'a list" where
  "broadcast_to n xs =
     (if length xs = n then Inr xs
      else if length xs = 1 then Inr (replicate n (hd xs))
      else Inl shape_mismatch)"

text \<open>\<^verbatim>\<open>a[indices]\<close> read with an index array: a new array, or IndexError.\<close>

definition take_rows :: "'a list \<Rightarrow> nat list \<Rightarrow> py_error + 'a list" where
  "take_rows a indices =
     (if list_all (\<lambda>i. i < length a) indices then Inr (map (\<lambda>i. a ! i) indices)
      else Inl IndexError)"

text \<open>
  \<^verbatim>\<open>a[indices] = vals\<close> with an index array whose rows are in range: the rows are
  written in order, so of two writes to one row the later one stays.
\<close>

definition put_rows :: "'a list \<Rightarrow> nat list \<Rightarrow> 'a list \<Rightarrow> 'a list" where
  "put_rows a indices vals = foldl (\<lambda>b (i, v). b[i := v]) a (zip indices vals)"

text \<open>\<^verbatim>\<open>x + y\<close> of two columns, with broadcasting.\<close>

definition add_columns :: "column \<Rightarrow> column \<Rightarrow> py_error + column" where
  "add_columns xs ys =
     (if length xs = length ys then Inr (map2 num_add xs ys)
      else if length xs = 1 then Inr (map (num_add (hd xs)) ys)
      else if length ys = 1 then Inr (map (\<lambda>x. num_add x (hd ys)) xs)
      else Inl shape_mismatch)"

text \<open>A matrix of shape \<open>(length mrows, ncols)\<close>, and \<^verbatim>\<open>X @ b\<close> for a column \<open>b\<close>.\<close>

record matrix =
  ncols :: nat
  mrows :: "num list list"

definition dot :: "num list \<Rightarrow> num list \<Rightarrow> num" where
  "dot xs ys = foldl num_add (Fin 0) (map2 num_mul xs ys)"

definition matmul :: "matrix \<Rightarrow> column \<Rightarrow> py_error + column" where
  "matmul X b =
     (if ncols X = length b \<and> list_all (\<lambda>r. length r = ncols X) (mrows X)
      then Inr (map (\<lambda>r. dot r b) (mrows X))
      else Inl (ValueError ''matmul: mismatch in core dimension''))"

text \<open>
  \<^verbatim>\<open>np.array(xs, dtype=np.int)\<close>: the integers as C longs (64 bits), OverflowError
  for a Python integer outside that range. \<^verbatim>\<open>dtype=np.bool\<close> keeps Booleans as they are.
\<close>

definition np_int_array :: "int list \<Rightarrow> py_error + int list" where
  "np_int_array xs =
     (if list_all (\<lambda>x. - (2 ^ 63) \<le> x \<and> x < 2 ^ 63) xs then Inr xs else Inl OverflowError)"

text \<open>
  A list comprehension \<^verbatim>\<open>[f(t) for t in ts]\<close> whose body may raise: the first
  exception ends it.
\<close>

fun comprehension :: "('a \<Rightarrow> py_error + 'b) \<Rightarrow> 'a list \<Rightarrow> py_error + 'b list" where
  "comprehension f [] = Inr []"
| "comprehension f (t # ts) =
     (case f t of
        Inl e \<Rightarrow> Inl e
      | Inr y \<Rightarrow> (case comprehension f ts of Inl e \<Rightarrow> Inl e | Inr ys \<Rightarrow> Inr (y # ys)))"

text \<open>\<^verbatim>\<open>d[k]\<close> on a dictionary.\<close>

definition getitem :: "('k \<rightharpoonup> 'v) \<Rightarrow> 'k \<Rightarrow> py_error + 'v" where
  "getitem d k = (case d k of None \<Rightarrow> Inl KeyError | Some v \<Rightarrow> Inr v)"

section \<open>The data the results refer to\<close>

text \<open>
  Record arrays are mutable objects that are shared by reference, so they live in a
  store: a list of cells, an address being a position in it. \<^verbatim>\<open>copy()\<close> allocates a
  new cell at the end. The panel has the two fields the source writes, and its other
  fields by name.
\<close>

type_synonym addr = nat

record RecArray =
  prices :: column
  shares :: column
  other_fields :: "(string \<times> column) list"

type_synonym heap = "RecArray list"

definition copy :: "heap \<Rightarrow> addr \<Rightarrow> heap \<times> addr" where
  "copy h a = (h @ [h ! a], length h)"

text \<open>
  \<^verbatim>\<open>array.prices = vals\<close> and \<^verbatim>\<open>array.shares = vals\<close> on a record array: the values
  are broadcast to the field's rows and written into the array at that address.
\<close>

definition set_prices :: "heap \<Rightarrow> addr \<Rightarrow> column \<Rightarrow> py_error + heap" where
  "set_prices h a vals =
     (case broadcast_to (length (prices (h ! a))) vals of
        Inl e \<Rightarrow> Inl e
      | Inr vs \<Rightarrow> Inr (h[a := (h ! a)\<lparr>prices := vs\<rparr>]))"

definition set_shares :: "heap \<Rightarrow> addr \<Rightarrow> column \<Rightarrow> py_error + heap" where
  "set_shares h a vals =
     (case broadcast_to (length (shares (h ! a))) vals of
        Inl e \<Rightarrow> Inl e
      | Inr vs \<Rightarrow> Inr (h[a := (h ! a)\<lparr>shares := vs\<rparr>]))"

text \<open>
  Modelled from the spec: the class \<^verbatim>\<open>Simulation\<close> (\<^verbatim>\<open>pyblp/economies/simulation.py\<close>)
  is not among the sources. The record has the attributes that \<^verbatim>\<open>SimulationResults\<close>
  reads, and the integration rule, which the specification lists among the inputs
  from the configuration layer. Market identifiers have the type \<open>'m\<close>; formulations,
  agent data and integration rules are opaque objects of the type \<open>'o\<close>.
\<close>

record ('m, 'o) Simulation =
  product_data :: addr
  beta :: column
  xi :: column
  unique_market_ids :: "'m list"
  product_market_indices :: "'m \<rightharpoonup> nat list"
  product_formulations :: "'o option"
  agent_formulation :: "'o option"
  agent_data :: "'o option"
  integration :: "'o option"

text \<open>\<^verbatim>\<open>SolverStats\<close>, as far as the constructor reads it.\<close>

record SolverStats =
  converged :: bool
  iterations :: int
  evaluations :: int

record ('m, 'o) SimulationResults =
  simulation :: "('m, 'o) Simulation"
  product_data :: addr
  delta :: column
  computation_time :: real
  fp_converged :: "bool list"
  fp_iterations :: "int list"
  contraction_evaluations :: "int list"

section \<open>The constructor\<close>

text \<open>Sequencing of steps that may raise: the first exception ends the sequence.\<close>

definition bind :: "py_error + 'a \<Rightarrow> ('a \<Rightarrow> py_error + 'b) \<Rightarrow> py_error + 'b" where
  "bind m f = (case m of Inl e \<Rightarrow> Inl e | Inr x \<Rightarrow> f x)"

text \<open>
  Lines 71 and 72 of the source: the prices, then the shares, are written into the array
  at \<open>pd\<close>. The store is returned with the outcome, also when a write raises.
\<close>

definition overlay :: "heap \<Rightarrow> addr \<Rightarrow> column \<Rightarrow> column \<Rightarrow> heap \<times> (py_error + unit)" where
  "overlay h pd prices' shares' =
     (case set_prices h pd prices' of
        Inl e \<Rightarrow> (h, Inl e)
      | Inr h2 \<Rightarrow>
          (case set_shares h2 pd shares' of
             Inl e \<Rightarrow> (h2, Inl e)
           | Inr h3 \<Rightarrow> (h3, Inr ())))"

text \<open>
  Line 73. The method \<^verbatim>\<open>Simulation._compute_true_X1\<close> is not among the sources and is
  the parameter \<open>compute_true_X1\<close>; it is given the overridden prices.
\<close>

definition compute_delta ::
  "(('m, 'o) Simulation \<Rightarrow> column \<Rightarrow> py_error + matrix) \<Rightarrow> ('m, 'o) Simulation \<Rightarrow>
   column \<Rightarrow> py_error + column" where
  "compute_delta compute_true_X1 sim prices' =
     bind (compute_true_X1 sim prices') (\<lambda>X1.
     bind (matmul X1 (beta sim)) (\<lambda>Xb.
     add_columns Xb (xi sim)))"

text \<open>Lines 75 to 83: the three diagnostic arrays, built one after the other.\<close>

definition diagnostics ::
  "'m list \<Rightarrow> ('m \<rightharpoonup> SolverStats) \<Rightarrow> py_error + (bool list \<times> int list \<times> int list)" where
  "diagnostics market_ids iteration_stats =
     bind (comprehension (\<lambda>t. bind (getitem iteration_stats t) (\<lambda>s. Inr (converged s)))
             market_ids) (\<lambda>cs.
     bind (comprehension (\<lambda>t. bind (getitem iteration_stats t) (\<lambda>s. Inr (iterations s)))
             market_ids) (\<lambda>its.
     bind (np_int_array its) (\<lambda>fp_its.
     bind (comprehension (\<lambda>t. bind (getitem iteration_stats t) (\<lambda>s. Inr (evaluations s)))
             market_ids) (\<lambda>evs.
     bind (np_int_array evs) (\<lambda>c_evs.
     Inr (cs, fp_its, c_evs))))))"

text \<open>
  \<^verbatim>\<open>SimulationResults.__init__\<close>. It returns the store with the outcome, also when it
  raises.
\<close>

definition init ::
  "(('m, 'o) Simulation \<Rightarrow> column \<Rightarrow> py_error + matrix) \<Rightarrow> heap \<Rightarrow> ('m, 'o) Simulation \<Rightarrow>
   column \<Rightarrow> column \<Rightarrow> real \<Rightarrow> real \<Rightarrow> ('m \<rightharpoonup> SolverStats) \<Rightarrow>
   heap \<times> (py_error + ('m, 'o) SimulationResults)" where
  "init compute_true_X1 h sim prices' shares' start_time end_time iteration_stats =
     (let (h1, pd) = copy h (Simulation.product_data sim);
          (h3, written) = overlay h1 pd prices' shares'
      in (h3,
          bind written (\<lambda>_.
          bind (compute_delta compute_true_X1 sim prices') (\<lambda>delta'.
          bind (diagnostics (unique_market_ids sim) iteration_stats) (\<lambda>(cs, its, evs).
          Inr \<lparr>simulation = sim, product_data = pd, delta = delta',
               computation_time = end_time - start_time, fp_converged = cs,
               fp_iterations = its, contraction_evaluations = evs\<rparr>)))))"

section \<open>Conversion into a problem\<close>

text \<open>
  \<^verbatim>\<open>SimulationResults.to_problem\<close>. The class \<^verbatim>\<open>Problem\<close> is an opaque factory, the
  parameter \<open>Problem\<close>, applied to the five arguments of the call. The arguments of the
  method carry a prime; the names without one are the variables after defaulting.
\<close>

record 'o problem_args =
  arg_product_formulations :: 'o
  arg_product_data :: addr
  arg_agent_formulation :: "'o option"
  arg_agent_data :: "'o option"
  arg_integration :: "'o option"

definition to_problem ::
  "('o problem_args \<Rightarrow> py_error + 'p) \<Rightarrow> ('m, 'o) SimulationResults \<Rightarrow>
   'o option \<Rightarrow> addr option \<Rightarrow> 'o option \<Rightarrow> 'o option \<Rightarrow> 'o option \<Rightarrow> py_error + 'p" where
  "to_problem Problem self product_formulations' product_data' agent_formulation'
       agent_data' integration' =
     (let product_formulations =
            (if product_formulations' = None
             then Simulation.product_formulations (simulation self) else product_formulations');
          product_data =
            (if product_data' = None
             then Some (SimulationResults.product_data self) else product_data');
          agent_formulation =
            (if agent_formulation' = None
             then Simulation.agent_formulation (simulation self) else agent_formulation');
          agent_data =
            (if agent_data' = None
             then Simulation.agent_data (simulation self) else agent_data')
      in case (product_formulations, product_data) of
           (Some pf, Some pd) \<Rightarrow>
             Problem \<lparr>arg_product_formulations = pf, arg_product_data = pd,
                      arg_agent_formulation = agent_formulation, arg_agent_data = agent_data,
                      arg_integration = integration'\<rparr>
         | _ \<Rightarrow> Inl AssertionError)"

section \<open>Micro moments\<close>

text \<open>
  The class \<^verbatim>\<open>EconomyMoments\<close> (\<^verbatim>\<open>pyblp/moments.py\<close>) is not among the sources. The
  record has the three attributes that \<^verbatim>\<open>compute_micro\<close> reads: the number of moments,
  the dictionary from a market to the rows of the moments it contributes to, and the
  array of counts, which the source indexes by those rows. The constructor of the class
  is a parameter of \<^verbatim>\<open>compute_micro\<close>.
\<close>

record 'm EconomyMoments =
  MM :: nat
  market_indices :: "'m \<rightharpoonup> nat list"
  market_counts :: "int list"

text \<open>
  Line 202, \<^verbatim>\<open>micro[indices] += micro_t / moments.market_counts[indices]\<close>: the rows of
  \<open>micro\<close> are read, the counts at the same rows are read, the quotient is broadcast to
  the rows read, and the sums are written back to those rows.
\<close>

definition iadd_rows :: "column \<Rightarrow> nat list \<Rightarrow> column \<Rightarrow> int list \<Rightarrow> py_error + column" where
  "iadd_rows micro indices micro_t counts =
     bind (take_rows micro indices) (\<lambda>current.
     bind (take_rows counts indices) (\<lambda>cs.
     bind (broadcast_to (length indices) micro_t) (\<lambda>raw.
     Inr (put_rows micro indices (map2 num_add current (map2 num_div raw cs))))))"

text \<open>Lines 201 to 203: the body of the loop, on the pair of the vector and the errors.\<close>

definition accumulate ::
  "'m EconomyMoments \<Rightarrow> column \<times> 'e list \<Rightarrow> 'm \<times> column \<times> 'e list \<Rightarrow>
   py_error + column \<times> 'e list" where
  "accumulate moments state item =
     (case (state, item) of ((micro, errors), (t, micro_t, errors_t)) \<Rightarrow>
        bind (getitem (market_indices moments) t) (\<lambda>indices.
        bind (iadd_rows micro indices micro_t (market_counts moments)) (\<lambda>micro'.
        Inr (micro', errors @ errors_t))))"

text \<open>
  What is observable of a run besides its result: the texts passed to \<^verbatim>\<open>output\<close>, and
  the markets whose computation was requested from the generator, in the order of the
  events.
\<close>

datatype 'e message =
    Text string
  | MomentsTable
  | MultipleErrors "'e list"
  | Finished real

datatype ('m, 'e) event = Output "'e message" | Dispatch 'm

text \<open>
  Lines 200 to 203: the loop over the generator. An item is a market with the outcome
  of its computation, an exception when building the market or computing in it raised.
  The exception, or one of the loop's body, ends the loop.
\<close>

fun micro_loop ::
  "'m EconomyMoments \<Rightarrow> column \<times> 'e list \<Rightarrow> ('m \<times> (py_error + column \<times> 'e list)) list \<Rightarrow>
   ('m, 'e) event list \<times> (py_error + column \<times> 'e list)" where
  "micro_loop moments state [] = ([], Inr state)"
| "micro_loop moments state ((t, outcome) # items) =
     (case bind outcome (\<lambda>(micro_t, errors_t). accumulate moments state (t, micro_t, errors_t)) of
        Inl e \<Rightarrow> ([Dispatch t], Inl e)
      | Inr state' \<Rightarrow>
          (case micro_loop moments state' items of (events, result) \<Rightarrow>
             (Dispatch t # events, result)))"

text \<open>
  Lines 185 to 193, \<^verbatim>\<open>market_factory\<close>: the prices and shares of the results at the
  rows of the market. The constructor of \<^verbatim>\<open>SimulationResultsMarket\<close> is not among the
  sources; the factory returns the arguments that differ between markets, and the
  computation in the market below is given the others.
\<close>

record 'm market_arguments =
  market_id :: 'm
  override_prices :: column
  override_shares :: column

definition market_factory ::
  "heap \<Rightarrow> ('m, 'o) SimulationResults \<Rightarrow> 'm \<Rightarrow> py_error + 'm market_arguments" where
  "market_factory h self s =
     bind (getitem (product_market_indices (simulation self)) s) (\<lambda>rows.
     bind (take_rows (prices (h ! SimulationResults.product_data self)) rows) (\<lambda>ps.
     bind (getitem (product_market_indices (simulation self)) s) (\<lambda>rows'.
     bind (take_rows (shares (h ! SimulationResults.product_data self)) rows') (\<lambda>ss.
     Inr \<lparr>market_id = s, override_prices = ps, override_shares = ss\<rparr>))))"

text \<open>
  Modelled from the spec: \<^verbatim>\<open>generate_items\<close> (\<^verbatim>\<open>pyblp/utilities/basics.py\<close>) is not
  among the sources. By the specification it visits every key once, builds the
  arguments with the factory, calls the method on them, and yields the pairs of a key
  and its result as they complete, in an order that need not be the order of the keys.
  The order of completion is the parameter \<open>schedule\<close>, a rearrangement of the keys; it
  is the identity when the computation is sequential.
\<close>

definition generate_items ::
  "('m list \<Rightarrow> 'm list) \<Rightarrow> 'm list \<Rightarrow> ('m \<Rightarrow> py_error + 'a) \<Rightarrow> ('a \<Rightarrow> py_error + 'b) \<Rightarrow>
   ('m \<times> (py_error + 'b)) list" where
  "generate_items schedule keys factory method =
     map (\<lambda>k. (k, bind (factory k) method)) (schedule keys)"

text \<open>
  \<^verbatim>\<open>SimulationResults.compute_micro\<close>. Its parameters are what the sources do not have:
  the constructor \<open>EconomyMoments'\<close> of the moments, the order \<open>schedule\<close> in which markets
  complete, the computation \<open>safely_compute_micro\<close> of one market (the constructor of
  \<^verbatim>\<open>SimulationResultsMarket\<close> followed by its method of that name), which returns the
  market's values with its errors, and the two readings \<open>start_time\<close> and \<open>end_time\<close> of
  the clock. The store is read and not written. The result is the events of the run with
  the vector returned or the exception raised.
\<close>

definition compute_micro ::
  "(('m, 'o) Simulation \<Rightarrow> 's list \<Rightarrow> py_error + 'm EconomyMoments) \<Rightarrow> ('m list \<Rightarrow> 'm list) \<Rightarrow>
   (('m, 'o) Simulation \<Rightarrow> column \<Rightarrow> 'm EconomyMoments \<Rightarrow> 'm market_arguments \<Rightarrow>
      py_error + column \<times> 'e list) \<Rightarrow>
   real \<Rightarrow> real \<Rightarrow> heap \<Rightarrow> ('m, 'o) SimulationResults \<Rightarrow> 's list \<Rightarrow>
   ('m, 'e) event list \<times> (py_error + column)" where
  "compute_micro EconomyMoments' schedule safely_compute_micro start_time end_time h self
       micro_moments =
     (let started = [Output (Text ''Computing micro moment values ...'')]
      in case EconomyMoments' (simulation self) micro_moments of
           Inl e \<Rightarrow> (started, Inl e)
         | Inr moments \<Rightarrow>
             if MM moments = 0
             then (started, Inl (ValueError ''At least one micro moment should be specified.''))
             else
               (let validated = [Output (Text []), Output MomentsTable];
                    micro = replicate (MM moments) (Fin 0);
                    generator =
                      generate_items schedule (unique_market_ids (simulation self))
                        (market_factory h self)
                        (safely_compute_micro (simulation self) (delta self) moments)
                in case micro_loop moments (micro, []) generator of
                     (dispatched, Inl e) \<Rightarrow> (started @ validated @ dispatched, Inl e)
                   | (dispatched, Inr (micro', errors)) \<Rightarrow>
                       (started @ validated @ dispatched
                          @ (if errors \<noteq> []
                             then [Output (Text []), Output (MultipleErrors errors),
                                   Output (Text [])]
                             else [])
                          @ [Output (Text []), Output (Finished (end_time - start_time)),
                             Output (Text [])],
                        Inr micro')))"

section \<open>The accumulation in double precision\<close>

text \<open>
  Line 196 creates the vector with the type \<^verbatim>\<open>options.dtype\<close>. The module \<^verbatim>\<open>options\<close>
  is not among the sources; the type is taken to be NumPy's double precision, the IEEE
  754 binary64 format, in which a result is rounded to the nearest value with a
  significand of 53 bits (to the one with an even significand when two are equally
  near), the least exponent of a unit in the last place is \<open>-1074\<close>, and a rounded
  magnitude of \<open>2 ^ 1024\<close> or more overflows to infinity.
\<close>

definition round_half_even :: "real \<Rightarrow> int" where
  "round_half_even x =
     (let n = \<lfloor>x\<rfloor>; d = x - of_int n
      in if d < 1 / 2 then n else if 1 / 2 < d then n + 1 else if even n then n else n + 1)"

definition round_double :: "real \<Rightarrow> num" where
  "round_double x =
     (if x = 0 then Fin 0
      else
        (let e = max (\<lfloor>log 2 \<bar>x\<bar>\<rfloor> - 52) (- 1074);
             y = of_int (round_half_even (x / 2 powr of_int e)) * 2 powr of_int e
         in if 2 ^ 1024 \<le> \<bar>y\<bar> then NonFinite else Fin y))"

text \<open>
  The sum of two doubles, and a double divided by an integer count, which is converted
  to a double first. An infinite divisor, which no 64-bit integer gives, makes the
  quotient zero.
\<close>

fun double_add :: "num \<Rightarrow> num \<Rightarrow> num" where
  "double_add (Fin a) (Fin b) = round_double (a + b)"
| "double_add _ _ = NonFinite"

fun double_div :: "num \<Rightarrow> int \<Rightarrow> num" where
  "double_div (Fin a) c =
     (if c = 0 then NonFinite
      else (case round_double (real_of_int c) of
              Fin c' \<Rightarrow> round_double (a / c')
            | NonFinite \<Rightarrow> Fin 0))"
| "double_div NonFinite c = NonFinite"

text \<open>
  Lines 200 to 203 once more, with the addition and the division of line 202 as
  parameters: with \<open>num_add\<close> and \<open>num_div\<close> it is the loop above, in which no result is
  rounded, and with \<open>double_add\<close> and \<open>double_div\<close> it is the loop in double precision.
\<close>

definition iadd_rows_with ::
  "(num \<Rightarrow> num \<Rightarrow> num) \<Rightarrow> (num \<Rightarrow> int \<Rightarrow> num) \<Rightarrow>
   column \<Rightarrow> nat list \<Rightarrow> column \<Rightarrow> int list \<Rightarrow> py_error + column" where
  "iadd_rows_with addition division micro indices micro_t counts =
     bind (take_rows micro indices) (\<lambda>current.
     bind (take_rows counts indices) (\<lambda>cs.
     bind (broadcast_to (length indices) micro_t) (\<lambda>raw.
     Inr (put_rows micro indices (map2 addition current (map2 division raw cs))))))"

definition accumulate_with ::
  "(num \<Rightarrow> num \<Rightarrow> num) \<Rightarrow> (num \<Rightarrow> int \<Rightarrow> num) \<Rightarrow>
   'm EconomyMoments \<Rightarrow> column \<times> 'e list \<Rightarrow> 'm \<times> column \<times> 'e list \<Rightarrow>
   py_error + column \<times> 'e list" where
  "accumulate_with addition division moments state item =
     (case (state, item) of ((micro, errors), (t, micro_t, errors_t)) \<Rightarrow>
        bind (getitem (market_indices moments) t) (\<lambda>indices.
        bind (iadd_rows_with addition division micro indices micro_t (market_counts moments))
          (\<lambda>micro'.
        Inr (micro', errors @ errors_t))))"

fun micro_loop_with ::
  "(num \<Rightarrow> num \<Rightarrow> num) \<Rightarrow> (num \<Rightarrow> int \<Rightarrow> num) \<Rightarrow>
   'm EconomyMoments \<Rightarrow> column \<times> 'e list \<Rightarrow> ('m \<times> (py_error + column \<times> 'e list)) list \<Rightarrow>
   ('m, 'e) event list \<times> (py_error + column \<times> 'e list)" where
  "micro_loop_with addition division moments state [] = ([], Inr state)"
| "micro_loop_with addition division moments state ((t, outcome) # items) =
     (case bind outcome
             (\<lambda>(micro_t, errors_t).
                accumulate_with addition division moments state (t, micro_t, errors_t)) of
        Inl e \<Rightarrow> ([Dispatch t], Inl e)
      | Inr state' \<Rightarrow>
          (case micro_loop_with addition division moments state' items of (events, result) \<Rightarrow>
             (Dispatch t # events, result)))"

text \<open>
  Three markets that contribute to one moment, whose count is \<open>1\<close>, and their values
  \<open>2 ^ 53\<close>, \<open>1\<close> and \<open>- (2 ^ 53)\<close>, which are doubles.
\<close>

definition three_markets :: "nat EconomyMoments" where
  "three_markets =
     \<lparr>MM = 1, market_indices = [1 \<mapsto> [0], 2 \<mapsto> [0], 3 \<mapsto> [0]], market_counts = [1]\<rparr>"

definition large :: "nat \<times> (py_error + column \<times> string list)" where
  "large = (1, Inr ([Fin (2 ^ 53)], []))"

definition small :: "nat \<times> (py_error + column \<times> string list)" where
  "small = (2, Inr ([Fin 1], []))"

definition large_negative :: "nat \<times> (py_error + column \<times> string list)" where
  "large_negative = (3, Inr ([Fin (- (2 ^ 53))], []))"

section \<open>What a run is compared with\<close>

text \<open>
  The sum of a list of values, from zero, in the order of the list: the accumulator of
  the loop starts as a vector of zeros.
\<close>

definition num_sum :: "num list \<Rightarrow> num" where
  "num_sum xs = foldl num_add (Fin 0) xs"

text \<open>
  The raw contribution of an item to the moment at row \<open>m\<close>: the row of the market's
  values that line 202 adds at row \<open>m\<close>, when the market's index array has \<open>m\<close> (the
  last such position, should the array repeat a row).
\<close>

definition raw_contribution ::
  "'m EconomyMoments \<Rightarrow> nat \<Rightarrow> 'm \<times> (py_error + column \<times> 'e list) \<Rightarrow> num option" where
  "raw_contribution moments m item =
     (case item of
        (t, Inl e) \<Rightarrow> None
      | (t, Inr (micro_t, errors_t)) \<Rightarrow>
          (case market_indices moments t of
             None \<Rightarrow> None
           | Some indices \<Rightarrow>
               (case broadcast_to (length indices) micro_t of
                  Inl e \<Rightarrow> None
                | Inr raw \<Rightarrow> map_of (rev (zip indices raw)) m)))"

text \<open>
  The raw contributions to row \<open>m\<close> of the items that contribute to it, in the order of
  the items, each divided by the count that \<open>market_counts\<close> has at row \<open>m\<close>.
\<close>

definition normalized_contributions ::
  "'m EconomyMoments \<Rightarrow> nat \<Rightarrow> ('m \<times> (py_error + column \<times> 'e list)) list \<Rightarrow> num list" where
  "normalized_contributions moments m items =
     map (\<lambda>r. num_div r (market_counts moments ! m))
       (List.map_filter (raw_contribution moments m) items)"

text \<open>
  An item that the body of the loop takes without raising, for a vector of \<open>n\<close> rows:
  its computation returned, the market has an index array, the rows of the array are
  rows of the vector and of the counts, and the values broadcast to the array.
\<close>

definition item_ok ::
  "'m EconomyMoments \<Rightarrow> nat \<Rightarrow> 'm \<times> (py_error + column \<times> 'e list) \<Rightarrow> bool" where
  "item_ok moments n item =
     (case item of
        (t, Inl e) \<Rightarrow> False
      | (t, Inr (micro_t, errors_t)) \<Rightarrow>
          (case market_indices moments t of
             None \<Rightarrow> False
           | Some indices \<Rightarrow>
               list_all (\<lambda>i. i < n) indices
               \<and> list_all (\<lambda>i. i < length (market_counts moments)) indices
               \<and> (length micro_t = length indices \<or> length micro_t = 1)))"

text \<open>The soft errors of an item, and the warnings among the events of a run.\<close>

definition item_errors :: "'m \<times> (py_error + column \<times> 'e list) \<Rightarrow> 'e list" where
  "item_errors item = (case snd item of Inl e \<Rightarrow> [] | Inr (micro_t, errors_t) \<Rightarrow> errors_t)"

fun warnings :: "('m, 'e) event list \<Rightarrow> 'e list list" where
  "warnings [] = []"
| "warnings (Output (MultipleErrors es) # events) = es # warnings events"
| "warnings (_ # events) = warnings events"

section \<open>A small economy\<close>

text \<open>
  Two markets, \<open>1\<close> with two products and \<open>2\<close> with one, on which the functions above
  are run: the panel of the simulation, the simulation, the statistics of its solver,
  and a design matrix whose one column is the prices.
\<close>

definition panel :: RecArray where
  "panel = \<lparr>prices = [Fin 1, Fin 2, Fin 3], shares = [Fin 0, Fin 0, Fin 0],
             other_fields = [(''market_ids'', [Fin 1, Fin 1, Fin 2])]\<rparr>"

definition economy :: "(nat, nat) Simulation" where
  "economy = \<lparr>Simulation.product_data = 0, beta = [Fin 2], xi = [Fin 1, Fin 1, Fin 1],
               unique_market_ids = [1, 2],
               product_market_indices = [1 \<mapsto> [0, 1], 2 \<mapsto> [2]],
               product_formulations = Some 10, agent_formulation = Some 11,
               agent_data = Some 12, integration = Some 13\<rparr>"

definition solver_stats :: "nat \<rightharpoonup> SolverStats" where
  "solver_stats = [1 \<mapsto> \<lparr>converged = True, iterations = 4, evaluations = 9\<rparr>,
                   2 \<mapsto> \<lparr>converged = False, iterations = 7, evaluations = 20\<rparr>]"

definition prices_column :: "(nat, nat) Simulation \<Rightarrow> column \<Rightarrow> py_error + matrix" where
  "prices_column sim ps = Inr \<lparr>ncols = 1, mrows = map (\<lambda>p. [p]) ps\<rparr>"

text \<open>
  The results of that simulation for the prices \<open>4, 5, 6\<close> and the shares
  \<open>1/2, 1/4, 1/8\<close>, and the store they are in: the panel of the simulation at address
  \<open>0\<close>, the panel of the results at address \<open>1\<close>.
\<close>

definition solved :: "(nat, nat) SimulationResults" where
  "solved = \<lparr>simulation = economy, product_data = 1, delta = [Fin 9, Fin 11, Fin 13],
              computation_time = 2, fp_converged = [True, False], fp_iterations = [4, 7],
              contraction_evaluations = [9, 20]\<rparr>"

definition solved_store :: heap where
  "solved_store =
     [panel, panel\<lparr>prices := [Fin 4, Fin 5, Fin 6], shares := [Fin (1/2), Fin (1/4), Fin (1/8)]\<rparr>]"

text \<open>
  Moments for that economy, one for each specification given: both markets contribute
  to the moment at row \<open>0\<close> and to no other, and the counts are \<open>2\<close> at row \<open>0\<close> and \<open>1\<close>
  at row \<open>1\<close>. The first computation in a market returns the value \<open>3\<close> in market
  \<open>1\<close> and \<open>5\<close> in market \<open>2\<close>, without errors; the second one returns the same values
  and fails softly in market \<open>2\<close>, where it returns an error with the value.
\<close>

definition moments_of :: "nat \<Rightarrow> nat EconomyMoments" where
  "moments_of n =
     \<lparr>MM = n, market_indices = [1 \<mapsto> [0], 2 \<mapsto> [0]], market_counts = [2, 1]\<rparr>"

definition both_markets :: "(nat, nat) Simulation \<Rightarrow> unit list \<Rightarrow> py_error + nat EconomyMoments" where
  "both_markets sim specs = Inr (moments_of (length specs))"

definition market_values ::
  "(nat, nat) Simulation \<Rightarrow> column \<Rightarrow> nat EconomyMoments \<Rightarrow> nat market_arguments \<Rightarrow>
   py_error + column \<times> string list" where
  "market_values sim d moments arguments =
     Inr ([if market_id arguments = 1 then Fin 3 else Fin 5], [])"

definition market_values_with_error ::
  "(nat, nat) Simulation \<Rightarrow> column \<Rightarrow> nat EconomyMoments \<Rightarrow> nat market_arguments \<Rightarrow>
   py_error + column \<times> string list" where
  "market_values_with_error sim d moments arguments =
     (if market_id arguments = 2 then Inr ([Fin 5], [''singular matrix''])
      else Inr ([Fin 3], []))"

section \<open>Properties of the array operations\<close>

lemma bind_Inr_iff: "bind m f = Inr y \<longleftrightarrow> (\<exists>x. m = Inr x \<and> f x = Inr y)"
  by (cases m) (simp_all add: bind_def)

lemma num_add_zero_right: "num_add x (Fin 0) = x"
  by (cases x) simp_all

lemma num_add_right_commute: "num_add (num_add a x) y = num_add (num_add a y) x"
  by (cases a; cases x; cases y) simp_all

lemma length_foldl_update:
  "length (foldl (\<lambda>b (i, v). b[i := v]) a ps) = length a"
  by (induction ps arbitrary: a) (auto split: prod.splits)

lemma length_put_rows: "length (put_rows a indices vals) = length a"
  by (simp add: put_rows_def length_foldl_update)

lemma nth_foldl_update:
  "\<forall>(i, v) \<in> set ps. i < length a \<Longrightarrow>
   foldl (\<lambda>b (i, v). b[i := v]) a ps ! m =
     (case map_of (rev ps) m of None \<Rightarrow> a ! m | Some v \<Rightarrow> v)"
proof (induction ps rule: rev_induct)
  case Nil
  then show ?case by simp
next
  case (snoc p ps)
  obtain i v where p: "p = (i, v)" by (cases p)
  from snoc.prems p have i: "i < length a" by simp
  from snoc have IH: "foldl (\<lambda>b (i, v). b[i := v]) a ps ! m =
     (case map_of (rev ps) m of None \<Rightarrow> a ! m | Some v \<Rightarrow> v)" by simp
  show ?case
    using i IH by (simp add: p nth_list_update length_foldl_update)
qed

lemma map_of_keyed_map:
  "map_of (map (\<lambda>(k, v). (k, f k v)) ps) m = map_option (f m) (map_of ps m)"
  by (induction ps) auto

lemma zip_sums:
  "length raw = length idx \<Longrightarrow>
   zip idx (map2 num_add (map g idx) (map2 num_div raw (map c idx))) =
     map (\<lambda>(i, r). (i, num_add (g i) (num_div r (c i)))) (zip idx raw)"
  by (induction raw idx rule: list_induct2) auto

lemma length_broadcast_to: "broadcast_to n xs = Inr ys \<Longrightarrow> length ys = n"
  by (auto simp: broadcast_to_def split: if_splits)

lemma broadcast_to_Inr_iff:
  "(\<exists>ys. broadcast_to n xs = Inr ys) \<longleftrightarrow> (length xs = n \<or> length xs = 1)"
  by (auto simp: broadcast_to_def shape_mismatch_def)

lemma take_rows_Inr_iff:
  "take_rows a idx = Inr ys \<longleftrightarrow> (list_all (\<lambda>i. i < length a) idx \<and> ys = map (\<lambda>i. a ! i) idx)"
  by (auto simp: take_rows_def)

lemma iadd_rows_Inr:
  assumes "iadd_rows micro idx micro_t counts = Inr micro'"
  shows "length micro' = length micro"
    and "\<exists>raw. broadcast_to (length idx) micro_t = Inr raw \<and>
           micro' ! m = (case map_of (rev (zip idx raw)) m of
                           None \<Rightarrow> micro ! m
                         | Some r \<Rightarrow> num_add (micro ! m) (num_div r (counts ! m)))"
proof -
  from assms obtain raw where
    idx: "list_all (\<lambda>i. i < length micro) idx" and
    raw: "broadcast_to (length idx) micro_t = Inr raw" and
    res: "micro' = put_rows micro idx
            (map2 num_add (map (\<lambda>i. micro ! i) idx) (map2 num_div raw (map (\<lambda>i. counts ! i) idx)))"
    by (auto simp: iadd_rows_def bind_Inr_iff take_rows_Inr_iff)
  show "length micro' = length micro"
    by (simp add: res length_put_rows)
  have len: "length raw = length idx"
    using raw by (rule length_broadcast_to)
  have inside: "\<forall>(i, v) \<in> set (map (\<lambda>(i, r). (i, num_add (micro ! i) (num_div r (counts ! i))))
                      (zip idx raw)). i < length micro"
    using idx by (auto simp: list_all_iff dest: set_zip_leftD)
  have key: "map_of (rev (map (\<lambda>(i, r). (i, num_add (micro ! i) (num_div r (counts ! i))))
                 (zip idx raw))) m =
             map_option (\<lambda>r. num_add (micro ! m) (num_div r (counts ! m)))
               (map_of (rev (zip idx raw)) m)"
    unfolding rev_map by (rule map_of_keyed_map)
  have "micro' ! m = (case map_of (rev (zip idx raw)) m of
                           None \<Rightarrow> micro ! m
                         | Some r \<Rightarrow> num_add (micro ! m) (num_div r (counts ! m)))"
    unfolding res put_rows_def zip_sums [OF len] nth_foldl_update [OF inside] key
    by (simp split: option.splits)
  with raw show "\<exists>raw. broadcast_to (length idx) micro_t = Inr raw \<and>
           micro' ! m = (case map_of (rev (zip idx raw)) m of
                           None \<Rightarrow> micro ! m
                         | Some r \<Rightarrow> num_add (micro ! m) (num_div r (counts ! m)))"
    by blast
qed

lemma iadd_rows_Inr_iff:
  "(\<exists>micro'. iadd_rows micro idx micro_t counts = Inr micro') \<longleftrightarrow>
   (list_all (\<lambda>i. i < length micro) idx \<and> list_all (\<lambda>i. i < length counts) idx
    \<and> (length micro_t = length idx \<or> length micro_t = 1))"
  using broadcast_to_Inr_iff [of "length idx" micro_t]
  by (auto simp: iadd_rows_def bind_Inr_iff take_rows_Inr_iff)


lemma accumulate_Inr_iff:
  "accumulate moments (micro, errors) (t, micro_t, errors_t) = Inr (micro', errors') \<longleftrightarrow>
   (\<exists>indices. market_indices moments t = Some indices
      \<and> iadd_rows micro indices micro_t (market_counts moments) = Inr micro'
      \<and> errors' = errors @ errors_t)"
  by (auto simp: accumulate_def bind_Inr_iff getitem_def split: option.splits)

lemma accumulate_ok_iff:
  "(\<exists>state'. accumulate moments (micro, errors) (t, micro_t, errors_t) = Inr state') \<longleftrightarrow>
   item_ok moments (length micro) (t, Inr (micro_t, errors_t))"
proof (cases "market_indices moments t")
  case None
  then show ?thesis
    by (simp add: accumulate_def bind_def getitem_def item_ok_def)
next
  case (Some indices)
  have "(\<exists>state'. accumulate moments (micro, errors) (t, micro_t, errors_t) = Inr state') \<longleftrightarrow>
        (\<exists>micro'. iadd_rows micro indices micro_t (market_counts moments) = Inr micro')"
    using Some by (auto simp: accumulate_def bind_Inr_iff getitem_def)
  then show ?thesis
    using Some by (simp add: iadd_rows_Inr_iff item_ok_def)
qed

lemma normalized_contributions_Cons:
  "normalized_contributions moments m (item # items) =
     (case raw_contribution moments m item of
        None \<Rightarrow> normalized_contributions moments m items
      | Some r \<Rightarrow> num_div r (market_counts moments ! m) # normalized_contributions moments m items)"
  by (simp add: normalized_contributions_def map_filter_simps split: option.splits)

lemma accumulate_nth:
  assumes "accumulate moments (micro, errors) (t, micro_t, errors_t) = Inr (micro', errors')"
  shows "micro' ! m =
           (case raw_contribution moments m (t, Inr (micro_t, errors_t)) of
              None \<Rightarrow> micro ! m
            | Some r \<Rightarrow> num_add (micro ! m) (num_div r (market_counts moments ! m)))"
proof -
  from assms obtain indices where
    ind: "market_indices moments t = Some indices" and
    add: "iadd_rows micro indices micro_t (market_counts moments) = Inr micro'"
    by (auto simp: accumulate_Inr_iff)
  from iadd_rows_Inr(2) [OF add, of m] obtain raw where
    raw: "broadcast_to (length indices) micro_t = Inr raw" and
    nth: "micro' ! m = (case map_of (rev (zip indices raw)) m of
                           None \<Rightarrow> micro ! m
                         | Some r \<Rightarrow> num_add (micro ! m) (num_div r (market_counts moments ! m)))"
    by blast
  show ?thesis
    by (simp add: raw_contribution_def ind raw nth)
qed

lemma micro_loop_Cons_Inr:
  assumes "snd (micro_loop moments (micro, errors) (item # items)) = Inr r"
  obtains micro_t errors_t micro1 where
    "item = (fst item, Inr (micro_t, errors_t))"
    "accumulate moments (micro, errors) (fst item, micro_t, errors_t) = Inr (micro1, errors @ errors_t)"
    "snd (micro_loop moments (micro1, errors @ errors_t) items) = Inr r"
    "fst (micro_loop moments (micro, errors) (item # items)) =
       Dispatch (fst item) # fst (micro_loop moments (micro1, errors @ errors_t) items)"
proof -
  obtain t outcome where item: "item = (t, outcome)" by (cases item)
  from assms item obtain st where
    body: "bind outcome (\<lambda>(micro_t, errors_t). accumulate moments (micro, errors) (t, micro_t, errors_t)) = Inr st"
    by (cases "bind outcome (\<lambda>(micro_t, errors_t). accumulate moments (micro, errors) (t, micro_t, errors_t))")
       simp_all
  then obtain micro_t errors_t where
    outcome: "outcome = Inr (micro_t, errors_t)" and
    acc: "accumulate moments (micro, errors) (t, micro_t, errors_t) = Inr st"
    by (auto simp: bind_Inr_iff)
  obtain micro1 errors1 where st: "st = (micro1, errors1)" by (cases st)
  from acc st have e1: "errors1 = errors @ errors_t"
    by (auto simp: accumulate_Inr_iff)
  from assms have rest: "snd (micro_loop moments (micro1, errors1) items) = Inr r"
    by (simp add: item body st split: prod.splits)
  have fst_eq: "fst (micro_loop moments (micro, errors) (item # items)) =
                Dispatch t # fst (micro_loop moments (micro1, errors1) items)"
    by (simp add: item body st split: prod.splits)
  show thesis
    using that [of micro_t errors_t micro1] item outcome acc st e1 rest fst_eq by simp
qed

lemma micro_loop_Inr_all:
  "snd (micro_loop moments (micro, errors) items) = Inr (micro', errors') \<Longrightarrow>
   length micro' = length micro
   \<and> errors' = errors @ concat (map item_errors items)
   \<and> fst (micro_loop moments (micro, errors) items) = map (\<lambda>item. Dispatch (fst item)) items
   \<and> micro' ! m = foldl num_add (micro ! m) (normalized_contributions moments m items)
   \<and> list_all (item_ok moments (length micro)) items"
proof (induction items arbitrary: micro errors)
  case Nil
  then show ?case
    by (simp add: normalized_contributions_def map_filter_simps)
next
  case (Cons item items)
  from Cons.prems obtain micro_t errors_t micro1 where
    item: "item = (fst item, Inr (micro_t, errors_t))" and
    acc: "accumulate moments (micro, errors) (fst item, micro_t, errors_t) = Inr (micro1, errors @ errors_t)" and
    rest: "snd (micro_loop moments (micro1, errors @ errors_t) items) = Inr (micro', errors')" and
    fst_eq: "fst (micro_loop moments (micro, errors) (item # items)) =
       Dispatch (fst item) # fst (micro_loop moments (micro1, errors @ errors_t) items)"
    by (rule micro_loop_Cons_Inr)
  note IH = Cons.IH [OF rest]
  have len1: "length micro1 = length micro"
    using acc by (auto simp: accumulate_Inr_iff dest: iadd_rows_Inr(1))
  have ok: "item_ok moments (length micro) item"
    using acc accumulate_ok_iff [of moments micro errors "fst item" micro_t errors_t] item
    by auto
  have errs: "item_errors item = errors_t"
    by (subst item) (simp add: item_errors_def)
  have nth1: "micro1 ! m =
           (case raw_contribution moments m item of
              None \<Rightarrow> micro ! m
            | Some r \<Rightarrow> num_add (micro ! m) (num_div r (market_counts moments ! m)))"
    using accumulate_nth [OF acc, of m] item by simp
  have "foldl num_add (micro1 ! m) (normalized_contributions moments m items) =
        foldl num_add (micro ! m) (normalized_contributions moments m (item # items))"
    by (simp add: normalized_contributions_Cons nth1 split: option.splits)
  with IH len1 ok errs fst_eq show ?case
    by simp
qed


lemma micro_loop_ok:
  "list_all (item_ok moments (length micro)) items \<Longrightarrow>
   \<exists>micro'. snd (micro_loop moments (micro, errors) items) =
              Inr (micro', errors @ concat (map item_errors items))"
proof (induction items arbitrary: micro errors)
  case Nil
  then show ?case by simp
next
  case (Cons item items)
  from Cons.prems have ok: "item_ok moments (length micro) item"
    and oks: "list_all (item_ok moments (length micro)) items"
    by simp_all
  from ok obtain t micro_t errors_t where item: "item = (t, Inr (micro_t, errors_t))"
    by (cases item; cases "snd item") (auto simp: item_ok_def)
  from ok item obtain st where
    acc: "accumulate moments (micro, errors) (t, micro_t, errors_t) = Inr st"
    using accumulate_ok_iff [of moments micro errors t micro_t errors_t] by auto
  obtain micro1 errors1 where st: "st = (micro1, errors1)" by (cases st)
  from acc st have e1: "errors1 = errors @ errors_t" and len1: "length micro1 = length micro"
    by (auto simp: accumulate_Inr_iff dest: iadd_rows_Inr(1))
  from Cons.IH [of micro1 errors1] oks len1 obtain micro' where
    rest: "snd (micro_loop moments (micro1, errors1) items) =
             Inr (micro', errors1 @ concat (map item_errors items))"
    by auto
  have "snd (micro_loop moments (micro, errors) (item # items)) =
          Inr (micro', errors @ concat (map item_errors (item # items)))"
    using rest by (simp add: item bind_def acc st e1 item_errors_def case_prod_beta)
  then show ?case by blast
qed

lemma micro_loop_Inr_iff:
  "(\<exists>r. snd (micro_loop moments (micro, errors) items) = Inr r) \<longleftrightarrow>
   list_all (item_ok moments (length micro)) items"
  using micro_loop_ok [of moments micro items errors]
    micro_loop_Inr_all [of moments micro errors items]
  by (metis surj_pair)

lemma foldl_num_add_mset:
  assumes "mset xs = mset ys"
  shows "foldl num_add a xs = foldl num_add a ys"
proof -
  have "fold (\<lambda>x s. num_add s x) xs = fold (\<lambda>x s. num_add s x) ys"
    using assms
    by (intro fold_multiset_equiv) (auto simp: fun_eq_iff num_add_right_commute)
  then show ?thesis
    by (simp add: foldl_conv_fold)
qed

lemma mset_normalized_contributions:
  "mset items = mset items' \<Longrightarrow>
   mset (normalized_contributions moments m items) =
   mset (normalized_contributions moments m items')"
  by (simp add: normalized_contributions_def map_filter_def)

lemma micro_loop_permuted:
  assumes perm: "mset items' = mset items"
    and run: "snd (micro_loop moments (micro, errors) items) = Inr (micro', errors')"
  shows "\<exists>errors''. snd (micro_loop moments (micro, errors) items') = Inr (micro', errors'')"
proof -
  from micro_loop_Inr_all [OF run] have "list_all (item_ok moments (length micro)) items"
    by simp
  with perm have "list_all (item_ok moments (length micro)) items'"
    by (metis list_all_iff mset_eq_setD)
  from micro_loop_ok [OF this] obtain micro2 errors2 where
    run2: "snd (micro_loop moments (micro, errors) items') = Inr (micro2, errors2)"
    by blast
  have "micro2 = micro'"
  proof (rule nth_equalityI)
    show "length micro2 = length micro'"
      using micro_loop_Inr_all [OF run] micro_loop_Inr_all [OF run2] by simp
  next
    fix m
    have "micro2 ! m = foldl num_add (micro ! m) (normalized_contributions moments m items')"
      using micro_loop_Inr_all [OF run2, of m] by simp
    also have "\<dots> = foldl num_add (micro ! m) (normalized_contributions moments m items)"
      by (rule foldl_num_add_mset) (rule mset_normalized_contributions [OF perm])
    also have "\<dots> = micro' ! m"
      using micro_loop_Inr_all [OF run, of m] by simp
    finally show "micro2 ! m = micro' ! m" .
  qed
  with run2 show ?thesis by blast
qed

lemma compute_micro_validated:
  assumes "EconomyMoments' (simulation self) micro_moments = Inr moments"
    and "MM moments \<noteq> 0"
  shows "compute_micro EconomyMoments' schedule f start_time end_time h self micro_moments =
    (case micro_loop moments (replicate (MM moments) (Fin 0), [])
            (generate_items schedule (unique_market_ids (simulation self))
               (market_factory h self) (f (simulation self) (delta self) moments)) of
       (dispatched, Inl e) \<Rightarrow>
         ([Output (Text ''Computing micro moment values ...''), Output (Text []),
           Output MomentsTable] @ dispatched, Inl e)
     | (dispatched, Inr (micro', errors)) \<Rightarrow>
         ([Output (Text ''Computing micro moment values ...''), Output (Text []),
           Output MomentsTable] @ dispatched
            @ (if errors \<noteq> []
               then [Output (Text []), Output (MultipleErrors errors), Output (Text [])]
               else [])
            @ [Output (Text []), Output (Finished (end_time - start_time)), Output (Text [])],
          Inr micro'))"
  using assms by (simp add: compute_micro_def Let_def split: prod.splits sum.splits)

lemma compute_micro_Inr:
  assumes "EconomyMoments' (simulation self) micro_moments = Inr moments"
    and "snd (compute_micro EconomyMoments' schedule f start_time end_time h self micro_moments)
           = Inr micro"
  obtains errors where "MM moments \<noteq> 0"
    and "snd (micro_loop moments (replicate (MM moments) (Fin 0), [])
            (generate_items schedule (unique_market_ids (simulation self))
               (market_factory h self) (f (simulation self) (delta self) moments)))
         = Inr (micro, errors)"
proof -
  from assms have nonzero: "MM moments \<noteq> 0"
    by (auto simp: compute_micro_def Let_def split: if_splits)
  from assms(2) show thesis
    unfolding compute_micro_validated
      [where EconomyMoments' = EconomyMoments' and self = self and moments = moments,
        OF assms(1) nonzero]
    by (auto split: prod.splits sum.splits intro: that [OF nonzero])
qed

lemma raw_contribution_None:
  assumes "\<And>t indices. market_indices moments t = Some indices \<Longrightarrow> m \<notin> set indices"
  shows "raw_contribution moments m item = None"
proof -
  have "map_of (rev (zip indices raw)) m = None"
    if "market_indices moments t = Some indices" for t indices and raw :: column
  proof -
    from assms [OF that] have "m \<notin> fst ` set (rev (zip indices raw))"
      by (force dest: set_zip_leftD)
    then show ?thesis
      by (simp add: map_of_eq_None_iff)
  qed
  then show ?thesis
    by (auto simp: raw_contribution_def split: prod.splits sum.splits option.splits)
qed

lemma normalized_contributions_none:
  assumes "\<And>t indices. market_indices moments t = Some indices \<Longrightarrow> m \<notin> set indices"
  shows "normalized_contributions moments m items = []"
proof -
  have "List.map_filter (raw_contribution moments m) items = []"
    by (induction items) (simp_all add: map_filter_simps raw_contribution_None [OF assms])
  then show ?thesis
    by (simp add: normalized_contributions_def)
qed

lemma fst_generate_items:
  "map fst (generate_items schedule keys factory method) = schedule keys"
  by (simp add: generate_items_def comp_def)

lemma warnings_Dispatch: "warnings (map Dispatch ts @ events) = warnings events"
  by (induction ts) simp_all

section \<open>Properties of the steps of the constructor\<close>

lemma comprehension_Inr:
  "comprehension g ts = Inr ys \<Longrightarrow>
   length ys = length ts \<and> (\<forall>i < length ts. g (ts ! i) = Inr (ys ! i))"
proof (induction ts arbitrary: ys)
  case Nil
  then show ?case by simp
next
  case (Cons t ts)
  from Cons.prems obtain y ys' where
    y: "g t = Inr y" and ys': "comprehension g ts = Inr ys'" and ys: "ys = y # ys'"
    by (auto split: sum.splits)
  from Cons.IH [OF ys'] y ys show ?case
    by (auto simp: nth_Cons split: nat.splits)
qed

lemma comprehension_Inl:
  assumes "t \<in> set ts" and "g t = Inl e" and "\<And>t' e'. g t' = Inl e' \<Longrightarrow> e' = e"
  shows "comprehension g ts = Inl e"
  using assms(1)
proof (induction ts)
  case Nil
  then show ?case by simp
next
  case (Cons a ts)
  show ?case
  proof (cases "g a")
    case (Inl e')
    from assms(3) [OF Inl] have "e' = e" .
    then show ?thesis
      by (simp add: Inl)
  next
    case (Inr y)
    have "t \<noteq> a"
      using assms(2) Inr by auto
    with Cons.prems have "t \<in> set ts" by simp
    then have "comprehension g ts = Inl e" by (rule Cons.IH)
    then show ?thesis
      by (simp add: Inr)
  qed
qed

lemma np_int_array_Inr: "np_int_array xs = Inr ys \<Longrightarrow> ys = xs"
  by (auto simp: np_int_array_def split: if_splits)

lemma stat_Inr_iff:
  "bind (getitem stats t) (\<lambda>s. Inr (g s)) = Inr y \<longleftrightarrow> (\<exists>s. stats t = Some s \<and> y = g s)"
  by (auto simp: bind_def getitem_def split: option.splits)

lemma diagnostics_missing:
  assumes "t \<in> set market_ids" and "iteration_stats t = None"
  shows "diagnostics market_ids iteration_stats = Inl KeyError"
proof -
  have "comprehension (\<lambda>t. bind (getitem iteration_stats t) (\<lambda>s. Inr (converged s))) market_ids
          = Inl KeyError"
  proof (rule comprehension_Inl [of t])
    show "t \<in> set market_ids" by (rule assms(1))
    show "bind (getitem iteration_stats t) (\<lambda>s. Inr (converged s)) = Inl KeyError"
      by (simp add: bind_def getitem_def assms(2))
    show "e' = KeyError"
      if "bind (getitem iteration_stats t') (\<lambda>s. Inr (converged s)) = Inl e'" for t' e'
      using that by (cases "iteration_stats t'") (simp_all add: bind_def getitem_def)
  qed
  then show ?thesis
    by (simp add: diagnostics_def bind_def)
qed

lemma diagnostics_comprehensions:
  assumes "diagnostics market_ids iteration_stats = Inr (cs, its, evs)"
  shows "comprehension (\<lambda>t. bind (getitem iteration_stats t) (\<lambda>s. Inr (converged s))) market_ids
           = Inr cs"
    and "comprehension (\<lambda>t. bind (getitem iteration_stats t) (\<lambda>s. Inr (iterations s))) market_ids
           = Inr its"
    and "comprehension (\<lambda>t. bind (getitem iteration_stats t) (\<lambda>s. Inr (evaluations s))) market_ids
           = Inr evs"
proof -
  from assms obtain cs' its' evs' where
    c: "comprehension (\<lambda>t. bind (getitem iteration_stats t) (\<lambda>s. Inr (converged s))) market_ids
          = Inr cs'" and
    i: "comprehension (\<lambda>t. bind (getitem iteration_stats t) (\<lambda>s. Inr (iterations s))) market_ids
          = Inr its'" and
    e: "comprehension (\<lambda>t. bind (getitem iteration_stats t) (\<lambda>s. Inr (evaluations s))) market_ids
          = Inr evs'" and
    ni: "np_int_array its' = Inr its" and ne: "np_int_array evs' = Inr evs" and cs: "cs' = cs"
    unfolding diagnostics_def bind_Inr_iff by blast
  from cs ni ne have "cs' = cs" "its' = its" "evs' = evs"
    by (auto dest: np_int_array_Inr)
  with c i e show
    "comprehension (\<lambda>t. bind (getitem iteration_stats t) (\<lambda>s. Inr (converged s))) market_ids
       = Inr cs"
    "comprehension (\<lambda>t. bind (getitem iteration_stats t) (\<lambda>s. Inr (iterations s))) market_ids
       = Inr its"
    "comprehension (\<lambda>t. bind (getitem iteration_stats t) (\<lambda>s. Inr (evaluations s))) market_ids
       = Inr evs"
    by simp_all
qed

lemma diagnostics_lengths:
  assumes "diagnostics market_ids iteration_stats = Inr (cs, its, evs)"
  shows "length cs = length market_ids" and "length its = length market_ids"
    and "length evs = length market_ids"
  using diagnostics_comprehensions [OF assms] by (simp_all add: comprehension_Inr)

lemma diagnostics_nth:
  assumes "diagnostics market_ids iteration_stats = Inr (cs, its, evs)"
    and "i < length market_ids"
  shows "\<exists>s. iteration_stats (market_ids ! i) = Some s
           \<and> cs ! i = converged s \<and> its ! i = iterations s \<and> evs ! i = evaluations s"
proof -
  note C = comprehension_Inr [OF diagnostics_comprehensions(1) [OF assms(1)]]
    and I = comprehension_Inr [OF diagnostics_comprehensions(2) [OF assms(1)]]
    and E = comprehension_Inr [OF diagnostics_comprehensions(3) [OF assms(1)]]
  from C assms(2) obtain s where s: "iteration_stats (market_ids ! i) = Some s" "cs ! i = converged s"
    unfolding stat_Inr_iff by blast
  from I assms(2) s(1) have "its ! i = iterations s"
    unfolding stat_Inr_iff by fastforce
  moreover from E assms(2) s(1) have "evs ! i = evaluations s"
    unfolding stat_Inr_iff by fastforce
  ultimately show ?thesis
    using s by blast
qed

lemma init_unfold:
  "init X h sim prices' shares' start_time end_time iteration_stats =
     (fst (overlay (h @ [h ! Simulation.product_data sim]) (length h) prices' shares'),
      bind (snd (overlay (h @ [h ! Simulation.product_data sim]) (length h) prices' shares'))
        (\<lambda>_. bind (compute_delta X sim prices')
        (\<lambda>d. bind (diagnostics (unique_market_ids sim) iteration_stats)
        (\<lambda>ds. Inr \<lparr>simulation = sim, product_data = length h, delta = d,
                    computation_time = end_time - start_time, fp_converged = fst ds,
                    fp_iterations = fst (snd ds), contraction_evaluations = snd (snd ds)\<rparr>))))"
  by (simp add: init_def copy_def Let_def case_prod_unfold)

lemma init_Inr:
  assumes "snd (init X h sim prices' shares' start_time end_time iteration_stats) = Inr r"
  obtains cs its evs d where
    "snd (overlay (h @ [h ! Simulation.product_data sim]) (length h) prices' shares') = Inr ()"
    "compute_delta X sim prices' = Inr d"
    "diagnostics (unique_market_ids sim) iteration_stats = Inr (cs, its, evs)"
    "r = \<lparr>simulation = sim, product_data = length h, delta = d,
          computation_time = end_time - start_time, fp_converged = cs,
          fp_iterations = its, contraction_evaluations = evs\<rparr>"
proof -
  from assms obtain d ds where
    "snd (overlay (h @ [h ! Simulation.product_data sim]) (length h) prices' shares') = Inr ()"
    "compute_delta X sim prices' = Inr d"
    "diagnostics (unique_market_ids sim) iteration_stats = Inr ds"
    "r = \<lparr>simulation = sim, product_data = length h, delta = d,
          computation_time = end_time - start_time, fp_converged = fst ds,
          fp_iterations = fst (snd ds), contraction_evaluations = snd (snd ds)\<rparr>"
    unfolding init_unfold snd_conv bind_Inr_iff by auto
  then show thesis
    using that [of d "fst ds" "fst (snd ds)" "snd (snd ds)"] by simp
qed

lemma overlay_fresh:
  "\<exists>y. fst (overlay (h @ [x]) (length h) prices' shares') = h @ [y]
       \<and> (snd (overlay (h @ [x]) (length h) prices' shares') = Inr () \<longrightarrow>
            (\<exists>ps ss. broadcast_to (length (prices x)) prices' = Inr ps
                \<and> broadcast_to (length (shares x)) shares' = Inr ss
                \<and> y = x\<lparr>prices := ps, shares := ss\<rparr>))"
  by (cases "broadcast_to (length (prices x)) prices'";
      cases "broadcast_to (length (shares x)) shares'")
     (simp_all add: overlay_def set_prices_def set_shares_def)

section \<open>Properties of the accumulation in double precision\<close>

lemma round_double_exponent:
  assumes "x \<noteq> 0" and "2 powr real_of_int k \<le> \<bar>x\<bar>" and "\<bar>x\<bar> < 2 powr real_of_int (k + 1)"
  shows "round_double x =
           (let e = max (k - 52) (- 1074);
                y = of_int (round_half_even (x / 2 powr of_int e)) * 2 powr of_int e
            in if 2 ^ 1024 \<le> \<bar>y\<bar> then NonFinite else Fin y)"
proof -
  have "\<lfloor>log 2 \<bar>x\<bar>\<rfloor> = k"
    using assms by (simp add: floor_log_eq_powr_iff)
  with assms(1) show ?thesis
    by (simp add: round_double_def)
qed

lemma round_double_large: "round_double (2 ^ 53) = Fin (2 ^ 53)"
  by (subst round_double_exponent [of _ 53])
     (simp_all add: round_half_even_def Let_def powr_numeral)

lemma round_double_large_plus_one: "round_double (2 ^ 53 + 1) = Fin (2 ^ 53)"
proof -
  have "\<lfloor>(2 ^ 53 + 1) / 2 :: real\<rfloor> = 2 ^ 52"
    by (simp add: floor_eq_iff)
  then show ?thesis
    by (subst round_double_exponent [of _ 53])
       (simp_all add: round_half_even_def Let_def powr_numeral)
qed

lemma round_double_large_negative: "round_double (- (2 ^ 53)) = Fin (- (2 ^ 53))"
  by (subst round_double_exponent [of _ 53])
     (simp_all add: round_half_even_def Let_def powr_numeral)

lemma round_double_one: "round_double 1 = Fin 1"
  by (subst round_double_exponent [of _ 0])
     (simp_all add: round_half_even_def Let_def powr_numeral powr_neg_numeral)

lemma round_double_numerals:
  "round_double 9007199254740992 = Fin 9007199254740992"
  "round_double 9007199254740993 = Fin 9007199254740992"
  "round_double (- 9007199254740992) = Fin (- 9007199254740992)"
  using round_double_large round_double_large_plus_one round_double_large_negative
  by simp_all

lemma round_double_zero: "round_double 0 = Fin 0"
  by (simp add: round_double_def)

lemma iadd_rows_exact: "iadd_rows_with num_add num_div = iadd_rows"
  by (simp add: fun_eq_iff iadd_rows_with_def iadd_rows_def)

lemma accumulate_exact: "accumulate_with num_add num_div = accumulate"
  by (simp add: fun_eq_iff accumulate_with_def accumulate_def iadd_rows_exact)

lemma micro_loop_exact:
  "micro_loop_with num_add num_div moments state items = micro_loop moments state items"
  by (induction items arbitrary: state) (auto simp: accumulate_exact split: sum.splits prod.splits)

lemma iadd_rows_with_Inr_iff:
  "(\<exists>micro'. iadd_rows_with addition division micro idx micro_t counts = Inr micro') \<longleftrightarrow>
   (list_all (\<lambda>i. i < length micro) idx \<and> list_all (\<lambda>i. i < length counts) idx
    \<and> (length micro_t = length idx \<or> length micro_t = 1))"
  using broadcast_to_Inr_iff [of "length idx" micro_t]
  by (auto simp: iadd_rows_with_def bind_Inr_iff take_rows_Inr_iff)

lemma length_iadd_rows_with:
  "iadd_rows_with addition division micro idx micro_t counts = Inr micro' \<Longrightarrow>
   length micro' = length micro"
  by (auto simp: iadd_rows_with_def bind_Inr_iff length_put_rows)

lemma accumulate_with_Inr:
  assumes "accumulate_with addition division moments (micro, errors) (t, micro_t, errors_t)
             = Inr state'"
  shows "length (fst state') = length micro"
    and "item_ok moments (length micro) (t, Inr (micro_t, errors_t))"
proof -
  from assms obtain indices micro' where
    ind: "market_indices moments t = Some indices" and
    add: "iadd_rows_with addition division micro indices micro_t (market_counts moments)
            = Inr micro'" and
    st: "state' = (micro', errors @ errors_t)"
    by (auto simp: accumulate_with_def bind_Inr_iff getitem_def split: option.splits)
  show "length (fst state') = length micro"
    using length_iadd_rows_with [OF add] st by simp
  from add have "\<exists>micro'. iadd_rows_with addition division micro indices micro_t
                            (market_counts moments) = Inr micro'"
    by blast
  then show "item_ok moments (length micro) (t, Inr (micro_t, errors_t))"
    unfolding iadd_rows_with_Inr_iff by (simp add: item_ok_def ind)
qed

lemma accumulate_with_Inl:
  assumes "accumulate_with addition division moments (micro, errors) (t, micro_t, errors_t)
             = Inl e"
  shows "\<not> item_ok moments (length micro) (t, Inr (micro_t, errors_t))"
proof (cases "market_indices moments t")
  case None
  then show ?thesis by (simp add: item_ok_def)
next
  case (Some indices)
  from assms Some have "\<not> (\<exists>micro'. iadd_rows_with addition division micro indices micro_t
                            (market_counts moments) = Inr micro')"
    by (auto simp: accumulate_with_def bind_def getitem_def)
  then show ?thesis
    unfolding iadd_rows_with_Inr_iff by (simp add: item_ok_def Some)
qed

lemma micro_loop_with_raises:
  "isl (snd (micro_loop_with addition division moments (micro, errors) items)) \<longleftrightarrow>
   \<not> list_all (item_ok moments (length micro)) items"
proof (induction items arbitrary: micro errors)
  case Nil
  then show ?case by simp
next
  case (Cons item items)
  obtain t outcome where item: "item = (t, outcome)" by (cases item)
  show ?case
  proof (cases outcome)
    case (Inl e)
    then show ?thesis
      by (simp add: item bind_def item_ok_def)
  next
    case (Inr r)
    obtain micro_t errors_t where r: "r = (micro_t, errors_t)" by (cases r)
    show ?thesis
    proof (cases "accumulate_with addition division moments (micro, errors) (t, micro_t, errors_t)")
      case (Inl e)
      from accumulate_with_Inl [OF Inl] show ?thesis
        by (simp add: item Inr r bind_def Inl)
    next
      case acc: (Inr state')
      obtain micro' errors' where state': "state' = (micro', errors')" by (cases state')
      from accumulate_with_Inr [OF acc] have "length micro' = length micro"
        and "item_ok moments (length micro) item"
        by (simp_all add: state' item Inr r)
      with Cons.IH [of micro' errors'] show ?thesis
        by (simp add: item Inr r bind_def acc state' case_prod_beta)
    qed
  qed
qed

lemmas economy_defs = panel_def economy_def solver_stats_def prices_column_def solved_def
  solved_store_def moments_of_def both_markets_def market_values_def market_values_with_error_def

lemmas run_defs = compute_micro_def generate_items_def market_factory_def bind_def getitem_def
  take_rows_def broadcast_to_def iadd_rows_def accumulate_def put_rows_def

lemmas init_defs = init_def copy_def overlay_def set_prices_def set_shares_def
  broadcast_to_def compute_delta_def bind_def matmul_def dot_def add_columns_def
  diagnostics_def getitem_def np_int_array_def

section \<open>Properties of the accumulation\<close>

text \<open>
  C1, as amended. The entry that \<^verbatim>\<open>compute_micro\<close> returns for the moment at row \<open>m\<close> is
  the sum, over the markets that contribute to the moment, in the order in which their
  results are consumed, of the market's raw contribution divided by the count that
  \<open>market_counts\<close> holds at row \<open>m\<close>. Each contribution is divided before it is added.
  The count is looked up by the row of the moment and not by the market, so every
  market that contributes to a moment is divided by the same count: for two
  contributing markets with raw contributions \<open>R1\<close> and \<open>R2\<close> and the count \<open>c\<close> of the
  moment, the entry is \<open>R1/c + R2/c\<close>.
\<close>

theorem micro_entry_sum_of_normalized:
  assumes "EconomyMoments' (simulation self) micro_moments = Inr moments"
    and "snd (compute_micro EconomyMoments' schedule f start_time end_time h self micro_moments)
           = Inr micro"
    and "m < MM moments"
  shows "micro ! m =
           num_sum (normalized_contributions moments m
             (generate_items schedule (unique_market_ids (simulation self))
                (market_factory h self) (f (simulation self) (delta self) moments)))"
proof -
  from assms(1,2) obtain errors where
    run: "snd (micro_loop moments (replicate (MM moments) (Fin 0), [])
            (generate_items schedule (unique_market_ids (simulation self))
               (market_factory h self) (f (simulation self) (delta self) moments)))
          = Inr (micro, errors)"
    by (rule compute_micro_Inr)
  from micro_loop_Inr_all [OF run, of m] assms(3) show ?thesis
    by (simp add: num_sum_def)
qed

text \<open>
  On the small economy, markets \<open>1\<close> and \<open>2\<close> contribute \<open>3\<close> and \<open>5\<close> to the moment at
  row \<open>0\<close>, whose count is \<open>2\<close>: the entry is \<open>3/2 + 5/2 = 4\<close>.
\<close>

theorem micro_entry_sum_of_normalized_witness:
  "snd (compute_micro both_markets id market_values 1 2 solved_store solved [(), ()])
     = Inr [Fin 4, Fin 0]
   \<and> normalized_contributions (moments_of 2) 0
       (generate_items id (unique_market_ids (simulation solved))
          (market_factory solved_store solved)
          (market_values (simulation solved) (delta solved) (moments_of 2)))
     = [Fin (3 / 2), Fin (5 / 2)]
   \<and> [Fin 4, Fin 0] ! 0 = num_sum [Fin (3 / 2), Fin (5 / 2)]"
proof -
  have moments: "both_markets (simulation solved) [(), ()] = Inr (moments_of 2)"
    by (simp add: both_markets_def numeral_2_eq_2)
  have run: "snd (compute_micro both_markets id market_values 1 2 solved_store solved [(), ()])
               = Inr [Fin 4, Fin 0]"
    by (simp add: economy_defs run_defs)
  have contributions: "normalized_contributions (moments_of 2) 0
       (generate_items id (unique_market_ids (simulation solved))
          (market_factory solved_store solved)
          (market_values (simulation solved) (delta solved) (moments_of 2)))
     = [Fin (3 / 2), Fin (5 / 2)]"
    by (simp add: economy_defs run_defs normalized_contributions_def raw_contribution_def
          map_filter_simps)
  have "(0::nat) < MM (moments_of 2)"
    by (simp add: moments_of_def)
  from micro_entry_sum_of_normalized [OF moments run this] run contributions
  show ?thesis by simp
qed

text \<open>
  C1 as stated fails. Let the observation counts of markets \<open>1\<close> and \<open>2\<close> be \<open>1\<close> and \<open>2\<close>,
  and let both contribute to the one moment. Whatever counts the moments hold, the entry
  returned is not \<open>R1/1 + R2/2\<close> for all raw contributions \<open>R1\<close> and \<open>R2\<close>: the two
  contributions are divided by one and the same count.
\<close>

theorem per_market_counts_counterexample:
  "\<not> (\<exists>counts. \<forall>R1 R2.
        snd (compute_micro
               (\<lambda>sim specs. Inr \<lparr>MM = 1, market_indices = [1 \<mapsto> [0], 2 \<mapsto> [0]],
                                   market_counts = counts\<rparr>)
               id
               (\<lambda>sim d moments arguments.
                  Inr ([Fin (if market_id arguments = 1 then R1 else R2)], [] :: string list))
               1 2 solved_store solved [()])
        = Inr [Fin (R1 / 1 + R2 / 2)])"
proof
  assume "\<exists>counts. \<forall>R1 R2.
        snd (compute_micro
               (\<lambda>sim specs. Inr \<lparr>MM = 1, market_indices = [1 \<mapsto> [0], 2 \<mapsto> [0]],
                                   market_counts = counts\<rparr>)
               id
               (\<lambda>sim d moments arguments.
                  Inr ([Fin (if market_id arguments = 1 then R1 else R2)], [] :: string list))
               1 2 solved_store solved [()])
        = Inr [Fin (R1 / 1 + R2 / 2)]"
  then obtain counts where all: "\<And>R1 R2.
        snd (compute_micro
               (\<lambda>sim specs. Inr \<lparr>MM = 1, market_indices = [1 \<mapsto> [0], 2 \<mapsto> [0]],
                                   market_counts = counts\<rparr>)
               id
               (\<lambda>sim d moments arguments.
                  Inr ([Fin (if market_id arguments = 1 then R1 else R2)], [] :: string list))
               1 2 solved_store solved [()])
        = Inr [Fin (R1 / 1 + R2 / 2)]"
    by blast
  show False
  proof (cases counts)
    case Nil
    with all [of 1 0] show False
      by (simp add: economy_defs run_defs)
  next
    case (Cons c cs)
    from all [of 1 0] Cons have "c = 1"
      by (simp add: economy_defs run_defs split: if_splits)
    moreover from all [of 0 2] Cons have "c = 2"
      by (simp add: economy_defs run_defs split: if_splits)
    ultimately show False by simp
  qed
qed

text \<open>
  C10. When \<^verbatim>\<open>compute_micro\<close> returns, the vector has one row for each moment, and the
  entry of a moment whose row is in the index array of no market is exactly zero.
\<close>

theorem uncontributed_entry_zero:
  assumes "EconomyMoments' (simulation self) micro_moments = Inr moments"
    and "snd (compute_micro EconomyMoments' schedule f start_time end_time h self micro_moments)
           = Inr micro"
    and "m < MM moments"
    and "\<forall>t indices. market_indices moments t = Some indices \<longrightarrow> m \<notin> set indices"
  shows "length micro = MM moments \<and> micro ! m = Fin 0"
proof -
  from assms(1,2) obtain errors where
    run: "snd (micro_loop moments (replicate (MM moments) (Fin 0), [])
            (generate_items schedule (unique_market_ids (simulation self))
               (market_factory h self) (f (simulation self) (delta self) moments)))
          = Inr (micro, errors)"
    by (rule compute_micro_Inr)
  have "normalized_contributions moments m
          (generate_items schedule (unique_market_ids (simulation self))
             (market_factory h self) (f (simulation self) (delta self) moments)) = []"
    using assms(4) by (intro normalized_contributions_none) blast
  with micro_loop_Inr_all [OF run, of m] assms(3) show ?thesis
    by simp
qed

theorem uncontributed_entry_zero_witness:
  "snd (compute_micro both_markets id market_values 1 2 solved_store solved [(), ()])
     = Inr [Fin 4, Fin 0]
   \<and> length [Fin 4, Fin 0] = MM (moments_of 2) \<and> [Fin 4, Fin 0] ! 1 = Fin 0"
proof -
  have moments: "both_markets (simulation solved) [(), ()] = Inr (moments_of 2)"
    by (simp add: both_markets_def numeral_2_eq_2)
  have run: "snd (compute_micro both_markets id market_values 1 2 solved_store solved [(), ()])
               = Inr [Fin 4, Fin 0]"
    by (simp add: economy_defs run_defs)
  have row: "(1::nat) < MM (moments_of 2)"
    by (simp add: moments_of_def)
  have none: "\<forall>t indices. market_indices (moments_of 2) t = Some indices \<longrightarrow> 1 \<notin> set indices"
    by (auto simp: moments_of_def split: if_splits)
  from uncontributed_entry_zero [OF moments run row none] run
  show ?thesis by simp
qed

text \<open>
  C2, as amended. With an empty list of specifications, for which the moments built
  have no row, \<^verbatim>\<open>compute_micro\<close> raises: the exception of the constructor of the
  moments if that raises, and otherwise the ValueError of line 178. No result of a
  market has been requested by then, and the store is not written. A first line of
  progress has been put out before the validation, and nothing else.
\<close>

theorem empty_specification_fails:
  assumes "\<forall>moments. EconomyMoments' (simulation self) [] = Inr moments \<longrightarrow> MM moments = 0"
  shows "compute_micro EconomyMoments' schedule f start_time end_time h self [] =
           ([Output (Text ''Computing micro moment values ...'')],
            case EconomyMoments' (simulation self) [] of
              Inl e \<Rightarrow> Inl e
            | Inr moments \<Rightarrow> Inl (ValueError ''At least one micro moment should be specified.''))"
  using assms by (simp add: compute_micro_def split: sum.splits)

theorem empty_specification_fails_witness:
  "compute_micro both_markets id market_values 1 2 solved_store solved [] =
     ([Output (Text ''Computing micro moment values ...'')],
      Inl (ValueError ''At least one micro moment should be specified.''))"
proof -
  have "\<forall>moments. both_markets (simulation solved) [] = Inr moments \<longrightarrow> MM moments = 0"
    by (auto simp: both_markets_def moments_of_def)
  from empty_specification_fails
    [where EconomyMoments' = both_markets and self = solved, OF this,
      of id market_values 1 2 solved_store]
  show ?thesis by (simp add: both_markets_def)
qed

text \<open>
  C2 as stated fails: the call with an empty list is not without effect, as one text
  has been passed to \<^verbatim>\<open>output\<close> when the error is raised.
\<close>

theorem empty_specification_counterexample:
  "fst (compute_micro both_markets id market_values 1 2 solved_store solved []) \<noteq> []"
  by (simp add: compute_micro_def both_markets_def moments_of_def)

text \<open>
  C6, as amended. Let no market raise, and let at least one market return soft errors.
  Then \<^verbatim>\<open>compute_micro\<close> returns the vector, and its entries are the sums of the
  normalized contributions of all markets: the values that a market returns are added
  whether or not it returns errors with them. Exactly one warning is put out; it has the
  soft errors of all markets, and it comes after the results of all markets of the
  schedule have been requested.
\<close>

theorem soft_errors_one_warning:
  assumes "EconomyMoments' (simulation self) micro_moments = Inr moments"
    and "MM moments \<noteq> 0"
    and "items = generate_items schedule (unique_market_ids (simulation self))
                   (market_factory h self) (f (simulation self) (delta self) moments)"
    and "list_all (item_ok moments (MM moments)) items"
    and "concat (map item_errors items) \<noteq> []"
  shows "\<exists>micro.
           compute_micro EconomyMoments' schedule f start_time end_time h self micro_moments =
             ([Output (Text ''Computing micro moment values ...''), Output (Text []),
               Output MomentsTable]
              @ map Dispatch (schedule (unique_market_ids (simulation self)))
              @ [Output (Text []), Output (MultipleErrors (concat (map item_errors items))),
                 Output (Text []),
                 Output (Text []), Output (Finished (end_time - start_time)), Output (Text [])],
              Inr micro)
           \<and> warnings (fst (compute_micro EconomyMoments' schedule f start_time end_time h self
                               micro_moments))
               = [concat (map item_errors items)]
           \<and> length micro = MM moments
           \<and> (\<forall>m < MM moments.
                 micro ! m = num_sum (normalized_contributions moments m items))"
proof -
  from assms(4) have "list_all (item_ok moments (length (replicate (MM moments) (Fin 0)))) items"
    by simp
  from micro_loop_ok [OF this, of "[]"] obtain micro where
    run: "snd (micro_loop moments (replicate (MM moments) (Fin 0), []) items) =
            Inr (micro, concat (map item_errors items))"
    by auto
  note facts = micro_loop_Inr_all [OF run]
  have keys: "map fst items = schedule (unique_market_ids (simulation self))"
    by (simp add: assms(3) fst_generate_items)
  have "map (\<lambda>item. Dispatch (fst item)) items = map Dispatch (map fst items)"
    by (simp add: comp_def)
  with keys facts [of 0]
  have dispatched: "fst (micro_loop moments (replicate (MM moments) (Fin 0), []) items) =
          map Dispatch (schedule (unique_market_ids (simulation self)))"
    by simp
  have loop: "micro_loop moments (replicate (MM moments) (Fin 0), []) items =
          (map Dispatch (schedule (unique_market_ids (simulation self))),
           Inr (micro, concat (map item_errors items)))"
    using run dispatched by (simp add: prod_eq_iff)
  have result: "compute_micro EconomyMoments' schedule f start_time end_time h self micro_moments =
             ([Output (Text ''Computing micro moment values ...''), Output (Text []),
               Output MomentsTable]
              @ map Dispatch (schedule (unique_market_ids (simulation self)))
              @ [Output (Text []), Output (MultipleErrors (concat (map item_errors items))),
                 Output (Text []),
                 Output (Text []), Output (Finished (end_time - start_time)), Output (Text [])],
              Inr micro)"
    unfolding compute_micro_validated
      [where EconomyMoments' = EconomyMoments' and self = self and moments = moments,
        OF assms(1,2)]
    using loop assms(5) by (simp add: assms(3) [symmetric])
  have warned: "warnings (fst (compute_micro EconomyMoments' schedule f start_time end_time h self
                               micro_moments)) = [concat (map item_errors items)]"
    by (simp add: result warnings_Dispatch)
  have entries: "micro ! m = num_sum (normalized_contributions moments m items)"
    if "m < MM moments" for m
    using facts [of m] that by (simp add: num_sum_def)
  from result warned facts [of 0] entries show ?thesis
    by (intro exI [of _ micro]) simp
qed

text \<open>
  On the small economy, with market \<open>2\<close> completing first and failing softly with the
  value \<open>5\<close>: the vector is returned, its entry at row \<open>0\<close> is \<open>5/2 + 3/2 = 4\<close>, the sum
  of the contributions of both markets, and the one warning follows the two markets.
\<close>

theorem soft_errors_one_warning_witness:
  "compute_micro both_markets rev market_values_with_error 1 2 solved_store solved [(), ()] =
     ([Output (Text ''Computing micro moment values ...''), Output (Text []), Output MomentsTable,
       Dispatch 2, Dispatch 1,
       Output (Text []), Output (MultipleErrors [''singular matrix'']), Output (Text []),
       Output (Text []), Output (Finished 1), Output (Text [])],
      Inr [Fin 4, Fin 0])
   \<and> warnings (fst (compute_micro both_markets rev market_values_with_error 1 2 solved_store
                       solved [(), ()])) = [[''singular matrix'']]
   \<and> num_sum (normalized_contributions (moments_of 2) 0
        [(2, Inr ([Fin 5], [''singular matrix''])), (1::nat, Inr ([Fin 3], []))])
      = Fin 4"
proof -
  let ?items = "[(2, Inr ([Fin 5], [''singular matrix''])), (1::nat, Inr ([Fin 3], []))]"
  have moments: "both_markets (simulation solved) [(), ()] = Inr (moments_of 2)"
    by (simp add: both_markets_def numeral_2_eq_2)
  have rows: "MM (moments_of 2) \<noteq> 0"
    by (simp add: moments_of_def)
  have items: "?items = generate_items rev (unique_market_ids (simulation solved))
                   (market_factory solved_store solved)
                   (market_values_with_error (simulation solved) (delta solved) (moments_of 2))"
    by (simp add: economy_defs run_defs)
  have ok: "list_all (item_ok (moments_of 2) (MM (moments_of 2))) ?items"
    by (simp add: moments_of_def item_ok_def)
  have soft: "concat (map item_errors ?items) \<noteq> []"
    by (simp add: item_errors_def)
  from soft_errors_one_warning
    [where EconomyMoments' = both_markets and self = solved and moments = "moments_of 2"
       and schedule = rev and f = market_values_with_error and h = solved_store
       and micro_moments = "[(), ()]" and items = ?items and start_time = 1 and end_time = 2,
      OF moments rows items ok soft]
  obtain micro where
    result: "compute_micro both_markets rev market_values_with_error 1 2 solved_store solved
               [(), ()] =
       ([Output (Text ''Computing micro moment values ...''), Output (Text []),
         Output MomentsTable]
        @ map Dispatch (rev (unique_market_ids (simulation solved)))
        @ [Output (Text []), Output (MultipleErrors (concat (map item_errors ?items))),
           Output (Text []),
           Output (Text []), Output (Finished (2 - 1)), Output (Text [])],
        Inr micro)"
    and warned: "warnings (fst (compute_micro both_markets rev market_values_with_error 1 2
                   solved_store solved [(), ()])) = [concat (map item_errors ?items)]"
    and len: "length micro = MM (moments_of 2)"
    and entries: "\<forall>m < MM (moments_of 2).
                 micro ! m = num_sum (normalized_contributions (moments_of 2) m ?items)"
    by blast
  have "micro ! 0 = Fin 4" "micro ! 1 = Fin 0"
    using entries
    by (simp_all add: moments_of_def num_sum_def normalized_contributions_def
          raw_contribution_def map_filter_simps broadcast_to_def)
  with len have "micro = [Fin 4, Fin 0]"
    by (cases micro; cases "tl micro") (auto simp: moments_of_def)
  with result warned show ?thesis
    by (simp add: item_errors_def solved_def economy_def moments_of_def num_sum_def
          normalized_contributions_def raw_contribution_def map_filter_simps broadcast_to_def)
qed

text \<open>
  C6 as stated fails. On the small economy market \<open>2\<close> fails softly and market \<open>1\<close>
  succeeds. The normalized contribution of the successful market to the moment at row
  \<open>0\<close> is \<open>3/2\<close>, and the entry returned is \<open>4\<close>: it has the contribution \<open>5/2\<close> of the
  market that failed as well.
\<close>

theorem soft_error_values_counterexample:
  "snd (compute_micro both_markets id market_values_with_error 1 2 solved_store solved [(), ()])
     = Inr [Fin 4, Fin 0]
   \<and> map item_errors
       (generate_items id (unique_market_ids (simulation solved))
          (market_factory solved_store solved)
          (market_values_with_error (simulation solved) (delta solved) (moments_of 2)))
     = [[], [''singular matrix'']]
   \<and> num_sum (normalized_contributions (moments_of 2) 0
        (filter (\<lambda>item. item_errors item = [])
           (generate_items id (unique_market_ids (simulation solved))
              (market_factory solved_store solved)
              (market_values_with_error (simulation solved) (delta solved) (moments_of 2)))))
     = Fin (3 / 2)
   \<and> [Fin 4, Fin 0] ! 0 \<noteq> Fin (3 / 2)"
  by (simp add: economy_defs run_defs item_errors_def num_sum_def normalized_contributions_def
        raw_contribution_def map_filter_simps)

text \<open>
  C7, as amended. For fixed partial results of the markets, whether the accumulation
  loop of \<^verbatim>\<open>compute_micro\<close> raises does not depend on the order in which the pairs of a
  market and its result are consumed, whatever the addition and the division of line
  202 are; and when no sum or quotient is rounded, the vector that the loop returns does
  not depend on that order either.
\<close>

theorem accumulation_order_exact:
  assumes "mset items' = mset items"
  shows "isl (snd (micro_loop_with addition division moments state items')) =
         isl (snd (micro_loop_with addition division moments state items))
         \<and> map_sum (\<lambda>e. ()) fst (snd (micro_loop_with num_add num_div moments state items')) =
           map_sum (\<lambda>e. ()) fst (snd (micro_loop_with num_add num_div moments state items))"
proof -
  obtain micro errors where state: "state = (micro, errors)" by (cases state)
  from assms have "set items' = set items"
    by (rule mset_eq_setD)
  then have raises: "isl (snd (micro_loop_with addition division moments state items')) =
         isl (snd (micro_loop_with addition division moments state items))"
    by (simp add: state micro_loop_with_raises list_all_iff)
  have "map_sum (\<lambda>e. ()) fst (snd (micro_loop moments (micro, errors) items')) =
        map_sum (\<lambda>e. ()) fst (snd (micro_loop moments (micro, errors) items))"
  proof (cases "snd (micro_loop moments (micro, errors) items)")
    case (Inr r)
    then obtain micro' errors' where
      "snd (micro_loop moments (micro, errors) items) = Inr (micro', errors')"
      by (cases r) simp
    from this micro_loop_permuted [OF assms this] show ?thesis
      by auto
  next
    case (Inl e)
    have "\<exists>e'. snd (micro_loop moments (micro, errors) items') = Inl e'"
    proof (cases "snd (micro_loop moments (micro, errors) items')")
      case (Inr r)
      then obtain micro' errors' where
        "snd (micro_loop moments (micro, errors) items') = Inr (micro', errors')"
        by (cases r) simp
      from micro_loop_permuted [OF assms [symmetric] this] Inl show ?thesis by simp
    qed simp
    with Inl show ?thesis by auto
  qed
  with raises show ?thesis
    by (simp add: state micro_loop_exact)
qed

theorem accumulation_order_exact_witness:
  "isl (snd (micro_loop_with double_add double_div three_markets ([Fin 0], [])
               [large, large_negative, small])) =
   isl (snd (micro_loop_with double_add double_div three_markets ([Fin 0], [])
               [large, small, large_negative]))
   \<and> map_sum (\<lambda>e. ()) fst
        (snd (micro_loop_with num_add num_div three_markets ([Fin 0], [])
                [large, large_negative, small])) =
     map_sum (\<lambda>e. ()) fst
        (snd (micro_loop_with num_add num_div three_markets ([Fin 0], [])
                [large, small, large_negative]))
   \<and> snd (micro_loop_with num_add num_div three_markets ([Fin 0], [])
                [large, small, large_negative]) = Inr ([Fin 1], [])"
proof -
  have "mset [large, large_negative, small] = mset [large, small, large_negative]"
    by simp
  from accumulation_order_exact [OF this, of double_add double_div three_markets "([Fin 0], [])"]
  show ?thesis
    by (simp add: three_markets_def large_def small_def large_negative_def
          accumulate_with_def iadd_rows_with_def bind_def getitem_def take_rows_def
          broadcast_to_def put_rows_def)
qed

text \<open>
  C7 as stated fails in double precision. The three contributions \<open>2 ^ 53\<close>, \<open>1\<close> and
  \<open>- (2 ^ 53)\<close> to one moment leave \<open>0\<close> when they are consumed in this order, since
  \<open>2 ^ 53 + 1\<close> is rounded to \<open>2 ^ 53\<close>, and \<open>1\<close> when the second and the third change
  places.
\<close>

theorem rounding_order_counterexample:
  "snd (micro_loop_with double_add double_div three_markets ([Fin 0], [])
          [large, small, large_negative]) = Inr ([Fin 0], [])
   \<and> snd (micro_loop_with double_add double_div three_markets ([Fin 0], [])
          [large, large_negative, small]) = Inr ([Fin 1], [])
   \<and> mset [large, large_negative, small] = mset [large, small, large_negative]"
  by (simp add: three_markets_def large_def small_def large_negative_def
        accumulate_with_def iadd_rows_with_def bind_def getitem_def take_rows_def
        broadcast_to_def put_rows_def round_double_numerals round_double_one
        round_double_zero)

section \<open>Properties of the constructor\<close>

text \<open>
  C3. When the constructor returns, each of the three diagnostic vectors has as many
  entries as the simulation has market identifiers, and the entry at a position is the
  statistic of the market at that position of \<open>unique_market_ids\<close>.
\<close>

theorem diagnostics_in_market_order:
  assumes "snd (init X h sim prices' shares' start_time end_time iteration_stats) = Inr r"
  shows "length (fp_converged r) = length (unique_market_ids sim)
         \<and> length (fp_iterations r) = length (unique_market_ids sim)
         \<and> length (contraction_evaluations r) = length (unique_market_ids sim)
         \<and> (\<forall>i < length (unique_market_ids sim).
               \<exists>s. iteration_stats (unique_market_ids sim ! i) = Some s
                 \<and> fp_converged r ! i = converged s
                 \<and> fp_iterations r ! i = iterations s
                 \<and> contraction_evaluations r ! i = evaluations s)"
proof -
  from assms obtain cs its evs d where
    diag: "diagnostics (unique_market_ids sim) iteration_stats = Inr (cs, its, evs)" and
    r: "r = \<lparr>simulation = sim, product_data = length h, delta = d,
          computation_time = end_time - start_time, fp_converged = cs,
          fp_iterations = its, contraction_evaluations = evs\<rparr>"
    by (rule init_Inr)
  have entries: "\<exists>s. iteration_stats (unique_market_ids sim ! i) = Some s
                 \<and> cs ! i = converged s \<and> its ! i = iterations s \<and> evs ! i = evaluations s"
    if "i < length (unique_market_ids sim)" for i
    using diag that by (rule diagnostics_nth)
  note lengths = diagnostics_lengths [OF diag]
  from lengths entries show ?thesis
    by (simp add: r)
qed

theorem diagnostics_in_market_order_witness:
  "snd (init prices_column [panel] economy [Fin 4, Fin 5, Fin 6]
          [Fin (1 / 2), Fin (1 / 4), Fin (1 / 8)] 5 7 solver_stats) = Inr solved
   \<and> length (fp_converged solved) = 2 \<and> length (fp_iterations solved) = 2
   \<and> length (contraction_evaluations solved) = 2
   \<and> solver_stats (unique_market_ids economy ! 1)
       = Some \<lparr>converged = False, iterations = 7, evaluations = 20\<rparr>
   \<and> fp_converged solved ! 1 = False \<and> fp_iterations solved ! 1 = 7
   \<and> contraction_evaluations solved ! 1 = 20"
proof -
  have run: "snd (init prices_column [panel] economy [Fin 4, Fin 5, Fin 6]
          [Fin (1 / 2), Fin (1 / 4), Fin (1 / 8)] 5 7 solver_stats) = Inr solved"
    by (simp add: economy_defs init_defs)
  from diagnostics_in_market_order [OF run] run show ?thesis
    by (simp add: economy_defs)
qed

text \<open>
  C4. The constructor leaves every array that was in the store as it was, the panel of
  the simulation among them. The panel of the results is a new array: the copy of the
  panel of the simulation, with the prices and shares written into it.
\<close>

theorem panel_of_simulation_unchanged:
  assumes "Simulation.product_data sim < length h"
  shows "take (length h) (fst (init X h sim prices' shares' start_time end_time iteration_stats))
           = h
         \<and> fst (init X h sim prices' shares' start_time end_time iteration_stats)
               ! Simulation.product_data sim = h ! Simulation.product_data sim
         \<and> (\<forall>r. snd (init X h sim prices' shares' start_time end_time iteration_stats) = Inr r
               \<longrightarrow> SimulationResults.product_data r \<noteq> Simulation.product_data sim
                 \<and> (\<exists>ps ss.
                       broadcast_to (length (prices (h ! Simulation.product_data sim))) prices'
                         = Inr ps
                     \<and> broadcast_to (length (shares (h ! Simulation.product_data sim))) shares'
                         = Inr ss
                     \<and> fst (init X h sim prices' shares' start_time end_time iteration_stats)
                           ! SimulationResults.product_data r
                         = (h ! Simulation.product_data sim)\<lparr>prices := ps, shares := ss\<rparr>))"
proof -
  let ?a = "Simulation.product_data sim"
  from overlay_fresh [of h "h ! ?a" prices' shares'] obtain y where
    store: "fst (overlay (h @ [h ! ?a]) (length h) prices' shares') = h @ [y]" and
    written: "snd (overlay (h @ [h ! ?a]) (length h) prices' shares') = Inr () \<longrightarrow>
            (\<exists>ps ss. broadcast_to (length (prices (h ! ?a))) prices' = Inr ps
                \<and> broadcast_to (length (shares (h ! ?a))) shares' = Inr ss
                \<and> y = (h ! ?a)\<lparr>prices := ps, shares := ss\<rparr>)"
    by blast
  have h': "fst (init X h sim prices' shares' start_time end_time iteration_stats) = h @ [y]"
    by (simp add: init_unfold store)
  have "SimulationResults.product_data r \<noteq> ?a
        \<and> (\<exists>ps ss. broadcast_to (length (prices (h ! ?a))) prices' = Inr ps
                \<and> broadcast_to (length (shares (h ! ?a))) shares' = Inr ss
                \<and> (h @ [y]) ! SimulationResults.product_data r
                    = (h ! ?a)\<lparr>prices := ps, shares := ss\<rparr>)"
    if "snd (init X h sim prices' shares' start_time end_time iteration_stats) = Inr r" for r
  proof -
    from that obtain cs its evs d where
      ok: "snd (overlay (h @ [h ! ?a]) (length h) prices' shares') = Inr ()" and
      r: "r = \<lparr>simulation = sim, product_data = length h, delta = d,
          computation_time = end_time - start_time, fp_converged = cs,
          fp_iterations = its, contraction_evaluations = evs\<rparr>"
      by (rule init_Inr)
    from written ok r assms show ?thesis
      by auto
  qed
  with assms show ?thesis
    unfolding h' by (simp add: nth_append)
qed

theorem panel_of_simulation_unchanged_witness:
  "fst (init prices_column [panel] economy [Fin 4, Fin 5, Fin 6]
          [Fin (1 / 2), Fin (1 / 4), Fin (1 / 8)] 5 7 solver_stats) ! 0 = panel
   \<and> snd (init prices_column [panel] economy [Fin 4, Fin 5, Fin 6]
          [Fin (1 / 2), Fin (1 / 4), Fin (1 / 8)] 5 7 solver_stats) = Inr solved
   \<and> SimulationResults.product_data solved = 1
   \<and> fst (init prices_column [panel] economy [Fin 4, Fin 5, Fin 6]
          [Fin (1 / 2), Fin (1 / 4), Fin (1 / 8)] 5 7 solver_stats) ! 1
       = panel\<lparr>prices := [Fin 4, Fin 5, Fin 6],
                shares := [Fin (1 / 2), Fin (1 / 4), Fin (1 / 8)]\<rparr>"
proof -
  have allocated: "Simulation.product_data economy < length [panel]"
    by (simp add: economy_def)
  have run: "init prices_column [panel] economy [Fin 4, Fin 5, Fin 6]
          [Fin (1 / 2), Fin (1 / 4), Fin (1 / 8)] 5 7 solver_stats = (solved_store, Inr solved)"
    by (simp add: economy_defs init_defs)
  from panel_of_simulation_unchanged [OF allocated, of prices_column "[Fin 4, Fin 5, Fin 6]"
      "[Fin (1 / 2), Fin (1 / 4), Fin (1 / 8)]" 5 7 solver_stats] run
  show ?thesis
    by (simp add: economy_def solved_def solved_store_def)
qed

text \<open>
  C5, as amended. The computation time of the results is the end time minus the start
  time, whatever the two times are. The times are not validated: whether the constructor
  raises, and which exception, does not depend on them, and a negative difference is
  stored like any other.
\<close>

theorem computation_time_is_difference:
  "snd (init X h sim prices' shares' start_time end_time iteration_stats) =
     map_sum id (\<lambda>r. r\<lparr>computation_time := end_time - start_time\<rparr>)
       (snd (init X h sim prices' shares' 0 0 iteration_stats))
   \<and> fst (init X h sim prices' shares' start_time end_time iteration_stats) =
     fst (init X h sim prices' shares' 0 0 iteration_stats)"
  by (cases "snd (overlay (h @ [h ! Simulation.product_data sim]) (length h) prices' shares')";
      cases "compute_delta X sim prices'";
      cases "diagnostics (unique_market_ids sim) iteration_stats")
     (simp_all add: init_unfold bind_def)

text \<open>
  C5 as stated fails: with the start time \<open>7\<close> and the end time \<open>5\<close> the constructor
  returns results, and their computation time is \<open>-2\<close>.
\<close>

theorem negative_time_counterexample:
  "snd (init prices_column [panel] economy [Fin 4, Fin 5, Fin 6]
          [Fin (1 / 2), Fin (1 / 4), Fin (1 / 8)] 7 5 solver_stats)
     = Inr (solved\<lparr>computation_time := - 2\<rparr>)"
  by (simp add: economy_defs init_defs)

text \<open>
  C8. When the statistics have no entry for one of the market identifiers of the
  simulation, the constructor raises and returns no results: the KeyError of the missing
  entry, unless one of the lines before the diagnostic vectors has raised already.
\<close>

theorem missing_statistics_raise:
  assumes "t \<in> set (unique_market_ids sim)" and "iteration_stats t = None"
  shows "isl (snd (init X h sim prices' shares' start_time end_time iteration_stats))
         \<and> snd (init X h sim prices' shares' start_time end_time iteration_stats) =
             (case snd (overlay (h @ [h ! Simulation.product_data sim]) (length h)
                          prices' shares') of
                Inl e \<Rightarrow> Inl e
              | Inr u \<Rightarrow>
                  (case compute_delta X sim prices' of
                     Inl e \<Rightarrow> Inl e
                   | Inr d \<Rightarrow> Inl KeyError))"
  using diagnostics_missing [where t = t and iteration_stats = iteration_stats, OF assms]
  by (simp add: init_unfold bind_def split: sum.splits)

theorem missing_statistics_raise_witness:
  "snd (init prices_column [panel] economy [Fin 4, Fin 5, Fin 6]
          [Fin (1 / 2), Fin (1 / 4), Fin (1 / 8)] 5 7 (solver_stats(2 := None)))
     = Inl KeyError"
proof -
  have market: "2 \<in> set (unique_market_ids economy)"
    by (simp add: economy_def)
  have missing: "(solver_stats(2 := None)) 2 = None"
    by simp
  from missing_statistics_raise
    [where t = 2 and sim = economy and iteration_stats = "solver_stats(2 := None)"
       and X = prices_column and h = "[panel]" and prices' = "[Fin 4, Fin 5, Fin 6]"
       and shares' = "[Fin (1 / 2), Fin (1 / 4), Fin (1 / 8)]" and start_time = 5
       and end_time = 7, OF market missing]
  show ?thesis
    by (simp add: economy_defs init_defs)
qed

section \<open>Properties of the conversion into a problem\<close>

text \<open>
  C9, as amended. \<^verbatim>\<open>to_problem\<close> passes to \<^verbatim>\<open>Problem\<close>, for each of the product
  formulations, the product data, the agent formulation and the agent data, the argument
  given, and where none is given the attribute held: the product formulations, the
  agent formulation and the agent data of the simulation, and the product data of the
  results. The integration is passed as it is given, and is left unspecified when none
  is given. The call raises an AssertionError when no product formulations are given
  and the simulation has none.
\<close>

theorem to_problem_defaults:
  "to_problem Problem self product_formulations' product_data' agent_formulation' agent_data'
       integration' =
     (case (case product_formulations' of
              None \<Rightarrow> Simulation.product_formulations (simulation self)
            | Some given \<Rightarrow> Some given) of
        None \<Rightarrow> Inl AssertionError
      | Some formulations \<Rightarrow>
          Problem
            \<lparr>arg_product_formulations = formulations,
             arg_product_data =
               (case product_data' of
                  None \<Rightarrow> SimulationResults.product_data self
                | Some given \<Rightarrow> given),
             arg_agent_formulation =
               (case agent_formulation' of
                  None \<Rightarrow> Simulation.agent_formulation (simulation self)
                | Some given \<Rightarrow> Some given),
             arg_agent_data =
               (case agent_data' of
                  None \<Rightarrow> Simulation.agent_data (simulation self)
                | Some given \<Rightarrow> Some given),
             arg_integration = integration'\<rparr>)"
  by (simp add: to_problem_def Let_def split: option.splits)

text \<open>
  C9 as stated fails for the integration: the simulation of the small economy holds an
  integration rule, and \<^verbatim>\<open>to_problem\<close> without arguments passes none to \<^verbatim>\<open>Problem\<close>.
\<close>

theorem integration_counterexample:
  "integration (simulation solved) = Some 13
   \<and> to_problem Inr solved None None None None None =
       Inr \<lparr>arg_product_formulations = 10, arg_product_data = 1,
            arg_agent_formulation = Some 11, arg_agent_data = Some 12,
            arg_integration = None\<rparr>"
  by (simp add: to_problem_def solved_def economy_def)

end
